theory Spec2Isabelle
  imports Main
begin

section \<open>JavaScript numbers and strings as the cart script uses them\<close>

text \<open>
  The script (\<^verbatim>\<open>script.js\<close>, the complete second copy in the snapshot file, lines 122--338,
  and the lookup line of the truncated first copy) computes with the integers that the
  cart document carries and with the one non-integer value it can produce itself,
  \<^verbatim>\<open>NaN\<close>, the result of \<^verbatim>\<open>parseInt\<close> on a text without digits. A number is
  therefore an integer or \<^verbatim>\<open>NaN\<close>, and \<^verbatim>\<open>NaN\<close> absorbs in the arithmetic.

  A number of the script is a double. Sums, products, \<^verbatim>\<open>parseInt\<close> and the text of a
  number are exact here on all integers; in the script they are exact as long as every
  number involved is a safe integer (\<^verbatim>\<open>Number.isSafeInteger\<close>: magnitude at most
  \<^verbatim>\<open>2^53 - 1\<close>), and rounded beyond. The theorems below that say what the script does
  with sums, with \<^verbatim>\<open>parseInt\<close> or with the text of a number therefore carry this bound
  as a hypothesis; the lemmas they rest on are facts of the exact arithmetic here. The
  two zeros of a double are the one number 0. A string is a list of characters with codes
  below 256.
\<close>

datatype number = Num int | NaN

instantiation number :: "{comm_monoid_add, times, minus}"
begin

definition zero_number :: number where
  "zero_number = Num 0"

fun plus_number :: "number \<Rightarrow> number \<Rightarrow> number" where
  "plus_number (Num a) (Num b) = Num (a + b)"
| "plus_number _ _ = NaN"

fun minus_number :: "number \<Rightarrow> number \<Rightarrow> number" where
  "minus_number (Num a) (Num b) = Num (a - b)"
| "minus_number _ _ = NaN"

fun times_number :: "number \<Rightarrow> number \<Rightarrow> number" where
  "times_number (Num a) (Num b) = Num (a * b)"
| "times_number _ _ = NaN"

instance
proof (intro_classes, goal_cases)
  case (1 x y z)
  show ?case
    by (cases x; cases y; cases z; simp)
next
  case (2 x y)
  show ?case
    by (cases x; cases y; simp)
next
  case (3 x)
  show ?case
    by (cases x; simp add: zero_number_def)
qed

end

text \<open>\<^verbatim>\<open>Number.isSafeInteger\<close>, on integers.\<close>

definition safe_integer :: "int \<Rightarrow> bool" where
  "safe_integer n = (\<bar>n\<bar> \<le> 2 ^ 53 - 1)"

text \<open>
  Adding the numbers \<open>xs\<close> to \<open>a\<close> one after the other, as \<^verbatim>\<open>reduce\<close> does,
  meets safe integers only: each number added and each sum on the way.
\<close>

fun safe_sum :: "int \<Rightarrow> int list \<Rightarrow> bool" where
  "safe_sum a [] = safe_integer a"
| "safe_sum a (x # xs) = (safe_integer a \<and> safe_integer x \<and> safe_sum (a + x) xs)"

text \<open>\<^verbatim>\<open>x > y\<close> on numbers: false as soon as one side is \<^verbatim>\<open>NaN\<close>.\<close>

fun greater :: "number \<Rightarrow> number \<Rightarrow> bool" where
  "greater (Num a) (Num b) = (b < a)"
| "greater _ _ = False"

text \<open>
  A primitive value is a number or a string. \<^verbatim>\<open>===\<close> never coerces: values of
  different types are unequal, and \<^verbatim>\<open>NaN\<close> is unequal to everything.
\<close>

datatype primitive = NumV number | StrV string

fun strict_eq :: "primitive \<Rightarrow> primitive \<Rightarrow> bool" where
  "strict_eq (NumV (Num a)) (NumV (Num b)) = (a = b)"
| "strict_eq (StrV s) (StrV t) = (s = t)"
| "strict_eq _ _ = False"

subsection \<open>Number to string\<close>

definition digit_char :: "nat \<Rightarrow> char" where
  "digit_char d = ''0123456789'' ! d"

fun digits :: "nat \<Rightarrow> string" where
  "digits n = (if n < 10 then [digit_char n] else digits (n div 10) @ [digit_char (n mod 10)])"

declare digits.simps [simp del]

definition IntToString :: "int \<Rightarrow> string" where
  "IntToString n = (if n < 0 then CHR ''-'' # digits (nat (- n)) else digits (nat n))"

fun NumberToString :: "number \<Rightarrow> string" where
  "NumberToString (Num n) = IntToString n"
| "NumberToString NaN = ''NaN''"

text \<open>\<^verbatim>\<open>${v}\<close> in a template literal, and the assignment of a number to a text property.\<close>

fun ToString :: "primitive \<Rightarrow> string" where
  "ToString (NumV x) = NumberToString x"
| "ToString (StrV s) = s"

subsection \<open>String to number\<close>

definition digit_value :: "char \<Rightarrow> nat option" where
  "digit_value c =
     (let k = of_char c :: nat
      in if 48 \<le> k \<and> k \<le> 57 then Some (k - 48)
         else if 97 \<le> k \<and> k \<le> 102 then Some (k - 87)
         else if 65 \<le> k \<and> k \<le> 70 then Some (k - 55)
         else None)"

definition is_radix_digit :: "nat \<Rightarrow> char \<Rightarrow> bool" where
  "is_radix_digit R c = (case digit_value c of None \<Rightarrow> False | Some v \<Rightarrow> v < R)"

definition radix_value :: "nat \<Rightarrow> string \<Rightarrow> nat" where
  "radix_value R Z = foldl (\<lambda>a c. a * R + the (digit_value c)) 0 Z"

text \<open>
  White space that \<^verbatim>\<open>parseInt\<close> skips, among the characters below 256: TAB, LF, VT, FF,
  CR, SP and the no-break space.
\<close>

definition is_white_space :: "char \<Rightarrow> bool" where
  "is_white_space c = (let k = of_char c :: nat in k = 32 \<or> k = 160 \<or> (9 \<le> k \<and> k \<le> 13))"

text \<open>
  \<^verbatim>\<open>parseInt(s)\<close> with no radix: skip leading white space, read a sign, read the prefix
  \<^verbatim>\<open>0x\<close> or \<^verbatim>\<open>0X\<close> (then the radix is 16, otherwise 10), take the longest run of digits
  of the radix; \<^verbatim>\<open>NaN\<close> when that run is empty, whatever follows the run is ignored.
\<close>

definition parseInt :: "string \<Rightarrow> number" where
  "parseInt inputString =
     (let S = dropWhile is_white_space inputString;
          negative = (S \<noteq> [] \<and> hd S = CHR ''-'');
          S1 = (if S \<noteq> [] \<and> (hd S = CHR ''+'' \<or> hd S = CHR ''-'') then tl S else S);
          hex = (take 2 S1 = ''0x'' \<or> take 2 S1 = ''0X'');
          R = (if hex then 16 else 10);
          S2 = (if hex then drop 2 S1 else S1);
          Z = takeWhile (is_radix_digit R) S2
      in if Z = [] then NaN
         else Num ((if negative then - 1 else 1) * int (radix_value R Z)))"

text \<open>
  \<^verbatim>\<open>input.value > 1\<close> converts the whole text of the input to a number first. The
  element is an \<^verbatim>\<open>input\<close> of type \<^verbatim>\<open>number\<close>: its text is empty or a valid
  floating-point number of HTML (an optional minus sign; digits, a point followed by
  digits, or both; an optional exponent with an optional sign), because the element
  replaces every other text by the empty one. The conversion reads the empty text as 0
  and such a number as its decimal value, \<open>Decimal s c e\<close> being \<open>c\<close> times ten to the
  power \<open>e\<close>, negative when \<open>s\<close> holds. \<open>None\<close>: a text that the element cannot
  hold.
\<close>

datatype decimal = Decimal bool nat int

definition StringToNumber :: "string \<Rightarrow> decimal option" where
  "StringToNumber s =
     (if s = [] then Some (Decimal False 0 0)
      else
        let negative = (hd s = CHR ''-'');
            s1 = (if negative then tl s else s);
            whole = takeWhile (is_radix_digit 10) s1;
            s2 = dropWhile (is_radix_digit 10) s1;
            point = (s2 \<noteq> [] \<and> hd s2 = CHR ''.'');
            digits_after = (if point then takeWhile (is_radix_digit 10) (tl s2) else []);
            s3 = (if point then dropWhile (is_radix_digit 10) (tl s2) else s2);
            has_exponent = (s3 \<noteq> [] \<and> (hd s3 = CHR ''e'' \<or> hd s3 = CHR ''E''));
            s4 = (if has_exponent then tl s3 else s3);
            down = (has_exponent \<and> s4 \<noteq> [] \<and> hd s4 = CHR ''-'');
            s5 = (if has_exponent \<and> s4 \<noteq> [] \<and> (hd s4 = CHR ''-'' \<or> hd s4 = CHR ''+'') then tl s4 else s4);
            valid = ((whole \<noteq> [] \<or> point) \<and> (point \<longrightarrow> digits_after \<noteq> []) \<and>
                     (if has_exponent then s5 \<noteq> [] \<and> list_all (is_radix_digit 10) s5 else s3 = []))
        in if valid
           then Some (Decimal negative (radix_value 10 (whole @ digits_after))
                        ((if has_exponent then (if down then - 1 else 1) * int (radix_value 10 s5) else 0)
                         - int (length digits_after)))
           else None)"

text \<open>
  \<^verbatim>\<open>x > 1\<close>, where \<open>x\<close> is the double nearest to the decimal value. Next to 1 the
  doubles above it lie \<^verbatim>\<open>2^-52\<close> apart and a tie goes to 1, so \<open>x\<close> is above 1
  exactly when the decimal value is above \<^verbatim>\<open>1 + 2^-53\<close>; for an integer that is from 2
  on.
\<close>

fun exceeds_one :: "decimal \<Rightarrow> bool" where
  "exceeds_one (Decimal s c e) =
     (\<not> s \<and> (if 0 \<le> e then 2 \<le> c * 10 ^ nat e
              else (2 ^ 53 + 1) * 10 ^ nat (- e) < c * 2 ^ 53))"

section \<open>The cart document\<close>

text \<open>
  A line item of the cart document. The identifier is whatever primitive the document
  gives (the script never declares its type); price and quantity are numbers of the
  document, and the quantity is the one field the script writes to.
\<close>

record LineItem =
  id' :: primitive
  title :: string
  price :: int
  image' :: string
  quantity :: number

subsection \<open>JSON values and \<^verbatim>\<open>JSON.stringify\<close>\<close>

text \<open>
  The values that JSON text stands for, numbers being integers. An object is the list of
  its members in the order of its properties, which is the order in which they were
  added as long as no key is an array index.
\<close>

datatype json =
    JNull
  | JBool bool
  | JNumber int
  | JString string
  | JArray "json list"
  | JObject "(string \<times> json) list"

text \<open>\<^verbatim>\<open>Array.prototype.join\<close>, on lists of lists.\<close>

fun join :: "'a list \<Rightarrow> 'a list list \<Rightarrow> 'a list" where
  "join sep [] = []"
| "join sep [x] = x"
| "join sep (x # y # ys) = x @ sep @ join sep (y # ys)"

definition hex_char :: "nat \<Rightarrow> char" where
  "hex_char d = ''0123456789abcdef'' ! d"

text \<open>
  The quoting of a string by \<^verbatim>\<open>JSON.stringify\<close>: the quote and the backslash are
  escaped, the control characters below 0x20 are written with their short escape or as
  \<^verbatim>\<open>\u00XX\<close>, every other character stands for itself.
\<close>

definition quote_char :: "char \<Rightarrow> string" where
  "quote_char c =
     (let k = of_char c :: nat
      in if k = 0x22 then [CHR 0x5C, CHR 0x22]
         else if k = 0x5C then [CHR 0x5C, CHR 0x5C]
         else if k = 0x08 then [CHR 0x5C, CHR ''b'']
         else if k = 0x0C then [CHR 0x5C, CHR ''f'']
         else if k = 0x0A then [CHR 0x5C, CHR ''n'']
         else if k = 0x0D then [CHR 0x5C, CHR ''r'']
         else if k = 0x09 then [CHR 0x5C, CHR ''t'']
         else if k < 0x20 then [CHR 0x5C, CHR ''u'', CHR ''0'', CHR ''0'', hex_char (k div 16), hex_char (k mod 16)]
         else [c])"

definition QuoteJSONString :: "string \<Rightarrow> string" where
  "QuoteJSONString s = CHR 0x22 # concat (map quote_char s) @ [CHR 0x22]"

fun JSON_stringify :: "json \<Rightarrow> string" where
  "JSON_stringify JNull = ''null''"
| "JSON_stringify (JBool b) = (if b then ''true'' else ''false'')"
| "JSON_stringify (JNumber n) = IntToString n"
| "JSON_stringify (JString s) = QuoteJSONString s"
| "JSON_stringify (JArray xs) = ''['' @ join '','' (map JSON_stringify xs) @ '']''"
| "JSON_stringify (JObject ms) =
     ''{'' @ join '','' (map (\<lambda>m. QuoteJSONString (fst m) @ '':'' @ JSON_stringify (snd m)) ms) @ ''}''"

text \<open>
  The script's objects as JSON values. \<^verbatim>\<open>JSON.stringify\<close> writes a \<^verbatim>\<open>NaN\<close>
  quantity as \<^verbatim>\<open>null\<close>. The properties are written in the order id, title, price,
  image, quantity; properties of the document that the script never reads are not part of
  a \<open>LineItem\<close>.
\<close>

fun primitive_json :: "primitive \<Rightarrow> json" where
  "primitive_json (NumV (Num n)) = JNumber n"
| "primitive_json (NumV NaN) = JNull"
| "primitive_json (StrV s) = JString s"

definition item_json :: "LineItem \<Rightarrow> json" where
  "item_json item =
     JObject [(''id'', primitive_json (id' item)),
              (''title'', JString (title item)),
              (''price'', JNumber (price item)),
              (''image'', JString (image' item)),
              (''quantity'', primitive_json (NumV (quantity item)))]"

text \<open>The object literal \<^verbatim>\<open>{ items: this.items }\<close>.\<close>

definition cart_json :: "LineItem list \<Rightarrow> json" where
  "cart_json its = JObject [(''items'', JArray (map item_json its))]"

subsection \<open>\<^verbatim>\<open>JSON.parse\<close>\<close>

text \<open>
  The parser of the platform, in two passes: the text is cut into tokens, and the tokens
  are read by a machine with a stack of the arrays and objects that are still open. A
  text is parsed to a value, or it is no JSON text (\<open>SyntaxError\<close>, the exception
  \<^verbatim>\<open>JSON.parse\<close> throws), or it uses JSON the model has no value for
  (\<open>Unsupported\<close>: a number with a fraction or an exponent, an escape beyond ASCII, a
  key that is an array index, which JavaScript orders before the other keys).
\<close>

datatype token =
    LBrace | RBrace | LBracket | RBracket | Colon | Comma
  | TString string | TNumber int | TTrue | TFalse | TNull

datatype 'a parsed = Parsed 'a | SyntaxError | Unsupported

text \<open>The four hexadecimal digits of a \<^verbatim>\<open>\u\<close> escape.\<close>

definition hex4 :: "string \<Rightarrow> nat option" where
  "hex4 h = (if length h = 4 \<and> list_all (is_radix_digit 16) h then Some (radix_value 16 h) else None)"

fun add_char :: "char \<Rightarrow> (string \<times> string) parsed \<Rightarrow> (string \<times> string) parsed" where
  "add_char c (Parsed (s, rest)) = Parsed (c # s, rest)"
| "add_char c SyntaxError = SyntaxError"
| "add_char c Unsupported = Unsupported"

text \<open>
  \<open>lex_string\<close> reads a string after its opening quote: the characters up to the
  closing quote, escapes decoded, and the text after the closing quote.
\<close>

fun lex_string :: "string \<Rightarrow> (string \<times> string) parsed" where
  "lex_string [] = SyntaxError"
| "lex_string (c # cs) =
     (if c = CHR 0x22 then Parsed ([], cs)
      else if c = CHR 0x5C then
        (case cs of
           [] \<Rightarrow> SyntaxError
         | e # cs' \<Rightarrow>
             if e = CHR 0x22 \<or> e = CHR 0x5C \<or> e = CHR ''/'' then add_char e (lex_string cs')
             else if e = CHR ''b'' then add_char (CHR 0x08) (lex_string cs')
             else if e = CHR ''f'' then add_char (CHR 0x0C) (lex_string cs')
             else if e = CHR ''n'' then add_char (CHR 0x0A) (lex_string cs')
             else if e = CHR ''r'' then add_char (CHR 0x0D) (lex_string cs')
             else if e = CHR ''t'' then add_char (CHR 0x09) (lex_string cs')
             else if e = CHR ''u'' then
               (case hex4 (take 4 cs') of
                  None \<Rightarrow> SyntaxError
                | Some k \<Rightarrow> if k < 128 then add_char (char_of k) (lex_string (drop 4 cs')) else Unsupported)
             else SyntaxError)
      else if (of_char c :: nat) < 0x20 then SyntaxError
      else add_char c (lex_string cs))"

text \<open>
  A number: an optional minus sign, then 0 or digits that do not start with 0.
\<close>

definition lex_number :: "string \<Rightarrow> (int \<times> string) parsed" where
  "lex_number cs =
     (let negative = (cs \<noteq> [] \<and> hd cs = CHR ''-'');
          body = (if negative then tl cs else cs);
          ds = takeWhile (is_radix_digit 10) body;
          rest = dropWhile (is_radix_digit 10) body
      in if ds = [] then SyntaxError
         else if hd ds = CHR ''0'' \<and> 1 < length ds then SyntaxError
         else if rest \<noteq> [] \<and> hd rest \<in> set ''.eE'' then Unsupported
         else Parsed ((if negative then - 1 else 1) * int (radix_value 10 ds), rest))"

fun cons_token :: "token \<Rightarrow> token list parsed \<Rightarrow> token list parsed" where
  "cons_token t (Parsed ts) = Parsed (t # ts)"
| "cons_token t SyntaxError = SyntaxError"
| "cons_token t Unsupported = Unsupported"

definition is_json_space :: "char \<Rightarrow> bool" where
  "is_json_space c = (c = CHR '' '' \<or> c = CHR 0x09 \<or> c = CHR 0x0A \<or> c = CHR 0x0D)"

lemma add_char_Parsed: "add_char c r = Parsed (s, rest) \<Longrightarrow> \<exists>s'. r = Parsed (s', rest)"
  by (cases r) auto

lemma lex_string_shorter: "lex_string cs = Parsed (s, rest) \<Longrightarrow> length rest < length cs"
proof (induction "length cs" arbitrary: cs s rule: less_induct)
  case less
  show ?case
  proof (cases cs)
    case Nil
    with less.prems show ?thesis by simp
  next
    case (Cons c cs1)
    note IH = less.hyps
    have tail: "\<And>ds s'. length ds \<le> length cs1 \<Longrightarrow> lex_string ds = Parsed (s', rest) \<Longrightarrow> length rest < length cs"
    proof -
      fix ds s' assume a: "length ds \<le> length cs1" "lex_string ds = Parsed (s', rest)"
      then have "length ds < length cs" using Cons by simp
      from IH [OF this a(2)] a(1) show "length rest < length cs" using Cons by simp
    qed
    show ?thesis
    proof (cases "c = CHR 0x22")
      case True
      with less.prems Cons show ?thesis by simp
    next
      case notq: False
      show ?thesis
      proof (cases "c = CHR 0x5C")
        case bs: True
        show ?thesis
        proof (cases cs1)
          case Nil
          with less.prems Cons notq bs show ?thesis by simp
        next
          case (Cons e cs2)
          have eq: "lex_string cs = (if e = CHR 0x22 \<or> e = CHR 0x5C \<or> e = CHR ''/'' then add_char e (lex_string cs2)
             else if e = CHR ''b'' then add_char (CHR 0x08) (lex_string cs2)
             else if e = CHR ''f'' then add_char (CHR 0x0C) (lex_string cs2)
             else if e = CHR ''n'' then add_char (CHR 0x0A) (lex_string cs2)
             else if e = CHR ''r'' then add_char (CHR 0x0D) (lex_string cs2)
             else if e = CHR ''t'' then add_char (CHR 0x09) (lex_string cs2)
             else if e = CHR ''u'' then
               (case hex4 (take 4 cs2) of
                  None \<Rightarrow> SyntaxError
                | Some k \<Rightarrow> if k < 128 then add_char (char_of k) (lex_string (drop 4 cs2)) else Unsupported)
             else SyntaxError)"
            using \<open>cs = c # cs1\<close> Cons notq bs by simp
          from less.prems [unfolded eq]
          have "(\<exists>s'. lex_string cs2 = Parsed (s', rest)) \<or> (\<exists>s'. lex_string (drop 4 cs2) = Parsed (s', rest))"
            by (auto split: if_splits option.splits dest: add_char_Parsed)
          then show ?thesis
          proof (elim disjE exE)
            fix s' assume "lex_string cs2 = Parsed (s', rest)"
            then show ?thesis using tail [of cs2 s'] Cons by simp
          next
            fix s' assume "lex_string (drop 4 cs2) = Parsed (s', rest)"
            then show ?thesis using tail [of "drop 4 cs2" s'] Cons by simp
          qed
        qed
      next
        case False
        with less.prems Cons notq obtain s' where "lex_string cs1 = Parsed (s', rest)"
          by (auto split: if_splits dest: add_char_Parsed)
        then show ?thesis using tail [of cs1 s'] by simp
      qed
    qed
  qed
qed

lemma lex_number_shorter: "lex_number cs = Parsed (n, rest) \<Longrightarrow> length rest < length cs"
proof -
  assume a: "lex_number cs = Parsed (n, rest)"
  define body where "body = (if cs \<noteq> [] \<and> hd cs = CHR ''-'' then tl cs else cs)"
  from a have r: "rest = dropWhile (is_radix_digit 10) body" and ne: "takeWhile (is_radix_digit 10) body \<noteq> []"
    by (auto simp: lex_number_def Let_def body_def split: if_splits)
  have "length (takeWhile (is_radix_digit 10) body) + length (dropWhile (is_radix_digit 10) body) = length body"
    by (metis length_append takeWhile_dropWhile_id)
  with ne r have "length rest < length body"
    by (cases "takeWhile (is_radix_digit 10) body") auto
  moreover have "length body \<le> length cs"
    by (simp add: body_def)
  ultimately show ?thesis by simp
qed


text \<open>The tokens of a text; white space between tokens is skipped.\<close>

function (sequential) lex :: "string \<Rightarrow> token list parsed" where
  "lex [] = Parsed []"
| "lex (c # cs) =
     (if is_json_space c then lex cs
      else if c = CHR ''{'' then cons_token LBrace (lex cs)
      else if c = CHR ''}'' then cons_token RBrace (lex cs)
      else if c = CHR ''['' then cons_token LBracket (lex cs)
      else if c = CHR '']'' then cons_token RBracket (lex cs)
      else if c = CHR '':'' then cons_token Colon (lex cs)
      else if c = CHR '','' then cons_token Comma (lex cs)
      else if c = CHR 0x22 then
        (case lex_string cs of
           Parsed (s, rest) \<Rightarrow> cons_token (TString s) (lex rest)
         | SyntaxError \<Rightarrow> SyntaxError
         | Unsupported \<Rightarrow> Unsupported)
      else if c = CHR ''-'' \<or> is_radix_digit 10 c then
        (case lex_number (c # cs) of
           Parsed (n, rest) \<Rightarrow> cons_token (TNumber n) (lex rest)
         | SyntaxError \<Rightarrow> SyntaxError
         | Unsupported \<Rightarrow> Unsupported)
      else if take 4 (c # cs) = ''true'' then cons_token TTrue (lex (drop 3 cs))
      else if take 5 (c # cs) = ''false'' then cons_token TFalse (lex (drop 4 cs))
      else if take 4 (c # cs) = ''null'' then cons_token TNull (lex (drop 3 cs))
      else SyntaxError)"
  by pat_completeness auto
termination
proof (relation "measure length")
  have A: "\<And>c cs. (cs, c # cs) \<in> measure length" by simp
  have B: "\<And>k c cs. (drop k cs, c # cs) \<in> measure length" by simp
  show "wf (measure length)" by simp
  fix c cs x s rest
  assume "lex_string cs = Parsed x" "(s, rest) = x"
  then have "lex_string cs = Parsed (s, rest)" by simp
  from lex_string_shorter [OF this] show "(rest, c # cs) \<in> measure length" by simp
next
  fix c cs x n rest
  assume "lex_number (c # cs) = Parsed x" "(n, rest) = x"
  then have "lex_number (c # cs) = Parsed (n, rest)" by simp
  from lex_number_shorter [OF this] show "(rest, c # cs) \<in> measure length" by simp
qed (simp_all del: take_Cons_numeral drop_Cons_numeral)

declare lex.simps(2) [simp del]


text \<open>
  What the machine expects next, and the open arrays and objects, innermost first: an
  array with its elements so far, an object with its members so far, and an object whose
  next member has its key already. A key that is already a member keeps its place and
  takes the new value.
\<close>

datatype expect = Value | ValueOrEnd | KeyOrEnd | Key | ColonNext | CommaOrEnd | Finished json

datatype frame =
    Arr "json list"
  | Obj "(string \<times> json) list"
  | ObjKey "(string \<times> json) list" string

fun define_property :: "string \<Rightarrow> json \<Rightarrow> (string \<times> json) list \<Rightarrow> (string \<times> json) list" where
  "define_property k v [] = [(k, v)]"
| "define_property k v (m # ms) = (if fst m = k then (k, v) # ms else m # define_property k v ms)"

text \<open>A value is complete: it is the result, or goes into the innermost open container.\<close>

fun complete :: "json \<Rightarrow> frame list \<Rightarrow> (expect \<times> frame list) parsed" where
  "complete v [] = Parsed (Finished v, [])"
| "complete v (Arr es # stk) = Parsed (CommaOrEnd, Arr (es @ [v]) # stk)"
| "complete v (ObjKey ms k # stk) = Parsed (CommaOrEnd, Obj (define_property k v ms) # stk)"
| "complete v (Obj ms # stk) = SyntaxError"

definition value_position :: "expect \<Rightarrow> bool" where
  "value_position e = (e = Value \<or> e = ValueOrEnd)"

definition is_array_index :: "string \<Rightarrow> bool" where
  "is_array_index k = (k \<noteq> [] \<and> list_all (is_radix_digit 10) k)"

fun step :: "expect \<Rightarrow> frame list \<Rightarrow> token \<Rightarrow> (expect \<times> frame list) parsed" where
  "step e stk LBracket = (if value_position e then Parsed (ValueOrEnd, Arr [] # stk) else SyntaxError)"
| "step e stk LBrace = (if value_position e then Parsed (KeyOrEnd, Obj [] # stk) else SyntaxError)"
| "step e stk (TNumber n) = (if value_position e then complete (JNumber n) stk else SyntaxError)"
| "step e stk TTrue = (if value_position e then complete (JBool True) stk else SyntaxError)"
| "step e stk TFalse = (if value_position e then complete (JBool False) stk else SyntaxError)"
| "step e stk TNull = (if value_position e then complete JNull stk else SyntaxError)"
| "step e stk (TString s) =
     (if value_position e then complete (JString s) stk
      else if e = KeyOrEnd \<or> e = Key then
        (case stk of
           Obj ms # stk' \<Rightarrow> if is_array_index s then Unsupported else Parsed (ColonNext, ObjKey ms s # stk')
         | _ \<Rightarrow> SyntaxError)
      else SyntaxError)"
| "step e stk Colon = (if e = ColonNext then Parsed (Value, stk) else SyntaxError)"
| "step e stk Comma =
     (if e = CommaOrEnd then
        (case stk of
           Arr es # stk' \<Rightarrow> Parsed (Value, stk)
         | Obj ms # stk' \<Rightarrow> Parsed (Key, stk)
         | _ \<Rightarrow> SyntaxError)
      else SyntaxError)"
| "step e stk RBracket =
     (if e = ValueOrEnd \<or> e = CommaOrEnd then
        (case stk of Arr es # stk' \<Rightarrow> complete (JArray es) stk' | _ \<Rightarrow> SyntaxError)
      else SyntaxError)"
| "step e stk RBrace =
     (if e = KeyOrEnd \<or> e = CommaOrEnd then
        (case stk of Obj ms # stk' \<Rightarrow> complete (JObject ms) stk' | _ \<Rightarrow> SyntaxError)
      else SyntaxError)"

fun parse_tokens :: "expect \<Rightarrow> frame list \<Rightarrow> token list \<Rightarrow> json parsed" where
  "parse_tokens e stk [] = (case e of Finished v \<Rightarrow> Parsed v | _ \<Rightarrow> SyntaxError)"
| "parse_tokens e stk (t # ts) =
     (case step e stk t of
        Parsed (e', stk') \<Rightarrow> parse_tokens e' stk' ts
      | SyntaxError \<Rightarrow> SyntaxError
      | Unsupported \<Rightarrow> Unsupported)"

definition JSON_parse :: "string \<Rightarrow> json parsed" where
  "JSON_parse txt =
     (case lex txt of
        Parsed ts \<Rightarrow> parse_tokens Value [] ts
      | SyntaxError \<Rightarrow> SyntaxError
      | Unsupported \<Rightarrow> Unsupported)"

section \<open>The page and the cart manager\<close>

text \<open>
  The text of an element is a literal string or the output of \<^verbatim>\<open>formatCurrency\<close>. The
  formatter (\<^verbatim>\<open>Intl.NumberFormat\<close> of the platform, applied to the amount divided by
  100) stays symbolic: \<open>Currency a\<close> is what it prints for the amount \<open>a\<close>.
\<close>

datatype textContent = Plain string | Currency number

definition formatCurrency :: "number \<Rightarrow> textContent" where
  "formatCurrency amount = Currency amount"

text \<open>
  One \<^verbatim>\<open>div.cart-item\<close> that \<open>createCartItemHTML\<close> writes. \<open>node\<close> is the identity of
  the element: two rows are the same element exactly when their nodes are equal. The
  markup is taken as well-formed, one element per template: the identifier, the title and
  the image reference hold no character that HTML reads as markup (a quote, an ampersand,
  an angle bracket), so that the attribute which the script reads back from the element
  is the text that the template wrote.
\<close>

record row =
  node :: nat
  data_id :: string
  img_src :: string
  heading :: string
  unit_price :: textContent
  input_value :: string
  item_total :: textContent

text \<open>The content of \<^verbatim>\<open>#cart-items\<close>: the rendered rows, or other markup.\<close>

datatype container = Rows "row list" | Html string

text \<open>
  The fields of \<^verbatim>\<open>this\<close> (the elements stand for their content: \<open>removeModal\<close> is
  the modal's \<^verbatim>\<open>style.display\<close>), then what belongs to the browser: the text stored
  under the key \<^verbatim>\<open>cart\<close> of \<^verbatim>\<open>localStorage\<close>, the URLs requested with \<^verbatim>\<open>fetch\<close>
  so far, and the next unused element identity.
\<close>

record state =
  items :: "LineItem list"
  subtotal :: number
  cartItemsContainer :: container
  subtotalElement :: textContent
  totalElement :: textContent
  cartCountElement :: textContent
  removeModal :: string
  itemToRemove :: "row option"
  localStorage :: "string option"
  requests :: "string list"
  fresh :: nat

definition API_URL :: string where
  "API_URL = ''https://cdn.shopify.com/s/files/1/0883/2188/4479/files/cart.json?v=1''"

text \<open>
  \<^verbatim>\<open>localStorage.setItem('cart', JSON.stringify(cart))\<close>. The write is taken to succeed
  (the script does not handle a full store either).
\<close>

definition saveCartToLocalStorage :: "json \<Rightarrow> state \<Rightarrow> state" where
  "saveCartToLocalStorage cart st = st\<lparr>localStorage := Some (JSON_stringify cart)\<rparr>"

text \<open>The constructor, on the page as loaded.\<close>

definition new_CartManager :: "state \<Rightarrow> state" where
  "new_CartManager page = page\<lparr>items := [], subtotal := 0, itemToRemove := None\<rparr>"

definition calculateTotals :: "state \<Rightarrow> state" where
  "calculateTotals st =
     (let subtotal' = foldl (\<lambda>total item. total + Num (price item) * quantity item) 0 (items st);
          totalItems = foldl (\<lambda>count item. count + quantity item) 0 (items st)
      in st\<lparr>subtotal := subtotal',
            subtotalElement := formatCurrency subtotal',
            totalElement := formatCurrency subtotal',
            cartCountElement := Plain (NumberToString totalItems)\<rparr>)"

text \<open>
  The value a number input holds after a number was assigned to it: the digits of an
  integer; the text \<^verbatim>\<open>NaN\<close> is no number for the input, which then holds the empty text.
\<close>

fun number_input_value :: "number \<Rightarrow> string" where
  "number_input_value (Num n) = IntToString n"
| "number_input_value NaN = []"

definition createCartItemHTML :: "nat \<Rightarrow> LineItem \<Rightarrow> row" where
  "createCartItemHTML n item =
     \<lparr>node = n,
      data_id = ToString (id' item),
      img_src = image' item,
      heading = title item,
      unit_price = formatCurrency (Num (price item)),
      input_value = number_input_value (quantity item),
      item_total = formatCurrency (Num (price item) * quantity item)\<rparr>"

text \<open>
  Assigning \<^verbatim>\<open>innerHTML\<close> creates new elements: the rows take the next unused
  identities. The listeners that the two \<open>attach\<close> methods add are the handlers below.
\<close>

definition renderCartItems :: "state \<Rightarrow> state" where
  "renderCartItems st =
     calculateTotals
       (st\<lparr>cartItemsContainer :=
              Rows (map (\<lambda>(n, item). createCartItemHTML n item)
                     (zip [fresh st ..< fresh st + length (items st)] (items st))),
            fresh := fresh st + length (items st)\<rparr>)"

subsection \<open>Elements of the page\<close>

definition find_row :: "nat \<Rightarrow> state \<Rightarrow> row option" where
  "find_row n st =
     (case cartItemsContainer st of
        Rows rs \<Rightarrow> find (\<lambda>r. node r = n) rs
      | Html _ \<Rightarrow> None)"

definition update_row :: "nat \<Rightarrow> (row \<Rightarrow> row) \<Rightarrow> state \<Rightarrow> state" where
  "update_row n f st =
     (case cartItemsContainer st of
        Rows rs \<Rightarrow> st\<lparr>cartItemsContainer := Rows (map (\<lambda>r. if node r = n then f r else r) rs)\<rparr>
      | Html _ \<Rightarrow> st)"

text \<open>\<^verbatim>\<open>element.remove()\<close>.\<close>

definition remove_row :: "nat \<Rightarrow> state \<Rightarrow> state" where
  "remove_row n st =
     (case cartItemsContainer st of
        Rows rs \<Rightarrow> st\<lparr>cartItemsContainer := Rows (filter (\<lambda>r. node r \<noteq> n) rs)\<rparr>
      | Html _ \<Rightarrow> st)"

subsection \<open>Quantity\<close>

text \<open>
  The two copies of \<open>updateItemQuantity\<close> look the item up differently. The first
  (line 122, where that copy breaks off) compares \<^verbatim>\<open>item.id === itemId\<close>, the
  second (line 244) \<^verbatim>\<open>item.id === parseInt(itemId)\<close>; \<open>itemId\<close> is the row's
  \<^verbatim>\<open>data-id\<close>, a string.
\<close>

definition find_item_v1 :: "LineItem list \<Rightarrow> string \<Rightarrow> LineItem option" where
  "find_item_v1 its itemId = find (\<lambda>item. strict_eq (id' item) (StrV itemId)) its"

definition find_item :: "LineItem list \<Rightarrow> string \<Rightarrow> LineItem option" where
  "find_item its itemId = find (\<lambda>item. strict_eq (id' item) (NumV (parseInt itemId))) its"

text \<open>
  \<^verbatim>\<open>find\<close> returns the first matching object of the array, and the assignment to its
  property changes that element of the array in place.
\<close>

fun assign_first :: "('a \<Rightarrow> bool) \<Rightarrow> ('a \<Rightarrow> 'a) \<Rightarrow> 'a list \<Rightarrow> 'a list" where
  "assign_first P f [] = []"
| "assign_first P f (x # xs) = (if P x then f x # xs else x # assign_first P f xs)"

text \<open>
  \<open>updateItemQuantity n\<close>: the method applied to the quantity input of the row with
  identity \<open>n\<close>. No such element, no call: the state stays.
\<close>

definition updateItemQuantity :: "nat \<Rightarrow> state \<Rightarrow> state" where
  "updateItemQuantity n st =
     (case find_row n st of
        None \<Rightarrow> st
      | Some cartItem \<Rightarrow>
          (let itemId = data_id cartItem;
               newQuantity = parseInt (input_value cartItem)
           in case find_item (items st) itemId of
                None \<Rightarrow> st
              | Some itemToUpdate \<Rightarrow>
                  (let st1 = st\<lparr>items :=
                               assign_first (\<lambda>item. strict_eq (id' item) (NumV (parseInt itemId)))
                                 (\<lambda>item. item\<lparr>quantity := newQuantity\<rparr>) (items st)\<rparr>;
                       st2 = update_row n
                               (\<lambda>r. r\<lparr>item_total :=
                                         formatCurrency (Num (price itemToUpdate) * newQuantity)\<rparr>) st1;
                       st3 = calculateTotals st2
                   in saveCartToLocalStorage (cart_json (items st3)) st3)))"

text \<open>
  The listeners of \<open>attachQuantityEventListeners\<close>. \<open>quantity_change n v\<close>: the user
  has edited the input of row \<open>n\<close>, it now holds the text \<open>v\<close>, and the change event
  runs. \<open>increase_click n\<close> and \<open>decrease_click n\<close>: the buttons beside that input.
  \<open>decrease_click\<close> is \<open>None\<close> where the input has a text that it cannot hold.
\<close>

definition quantity_change :: "nat \<Rightarrow> string \<Rightarrow> state \<Rightarrow> state" where
  "quantity_change n v st = updateItemQuantity n (update_row n (\<lambda>r. r\<lparr>input_value := v\<rparr>) st)"

definition increase_click :: "nat \<Rightarrow> state \<Rightarrow> state" where
  "increase_click n st =
     (case find_row n st of
        None \<Rightarrow> st
      | Some cartItem \<Rightarrow>
          updateItemQuantity n
            (update_row n
               (\<lambda>r. r\<lparr>input_value := number_input_value (parseInt (input_value r) + Num 1)\<rparr>) st))"

definition decrease_click :: "nat \<Rightarrow> state \<Rightarrow> state option" where
  "decrease_click n st =
     (case find_row n st of
        None \<Rightarrow> Some st
      | Some r \<Rightarrow>
          (case StringToNumber (input_value r) of
             None \<Rightarrow> None
           | Some x \<Rightarrow>
               if exceeds_one x
               then Some (updateItemQuantity n
                      (update_row n
                         (\<lambda>r. r\<lparr>input_value := number_input_value (parseInt (input_value r) - Num 1)\<rparr>) st))
               else Some st))"

subsection \<open>Removal\<close>

definition showRemoveModal :: "state \<Rightarrow> state" where
  "showRemoveModal st = st\<lparr>removeModal := ''block''\<rparr>"

definition closeRemoveModal :: "state \<Rightarrow> state" where
  "closeRemoveModal st = st\<lparr>removeModal := ''none'', itemToRemove := None\<rparr>"

text \<open>The listener of \<open>attachRemoveEventListeners\<close>, on the remove icon of row \<open>n\<close>.\<close>

definition remove_click :: "nat \<Rightarrow> state \<Rightarrow> state" where
  "remove_click n st =
     (case find_row n st of
        None \<Rightarrow> st
      | Some cartItem \<Rightarrow> showRemoveModal (st\<lparr>itemToRemove := Some cartItem\<rparr>))"

text \<open>
  The filter of \<open>confirmRemoveItem\<close> (line 300):
  \<^verbatim>\<open>this.items.filter(item => item.id !== parseInt(itemId))\<close>.
\<close>

definition removeItem :: "LineItem list \<Rightarrow> string \<Rightarrow> LineItem list" where
  "removeItem its itemId = filter (\<lambda>item. \<not> strict_eq (id' item) (NumV (parseInt itemId))) its"

definition confirmRemoveItem :: "state \<Rightarrow> state" where
  "confirmRemoveItem st =
     (case itemToRemove st of
        None \<Rightarrow> st
      | Some pending \<Rightarrow>
          (let itemId = data_id pending;
               st1 = st\<lparr>items := removeItem (items st) itemId\<rparr>;
               st2 = remove_row (node pending) st1;
               st3 = calculateTotals st2;
               st4 = saveCartToLocalStorage (cart_json (items st3)) st3
           in closeRemoveModal st4))"

subsection \<open>Loading the cart\<close>

text \<open>
  The script reads a parsed document as an array of objects with the properties id,
  title, price, image and quantity. \<open>items_of\<close> is that reading where the document has
  this shape (an identifier that is a number or a string, integer price and quantity);
  every other document has no such reading: \<open>None\<close>.
\<close>

fun json_primitive :: "json \<Rightarrow> primitive option" where
  "json_primitive (JNumber n) = Some (NumV (Num n))"
| "json_primitive (JString s) = Some (StrV s)"
| "json_primitive _ = None"

fun json_string :: "json \<Rightarrow> string option" where
  "json_string (JString s) = Some s"
| "json_string _ = None"

fun json_int :: "json \<Rightarrow> int option" where
  "json_int (JNumber n) = Some n"
| "json_int _ = None"

text \<open>\<^verbatim>\<open>v.k\<close> on a parsed value: the member of an object.\<close>

fun property :: "string \<Rightarrow> json \<Rightarrow> json option" where
  "property k (JObject ms) = map_of ms k"
| "property k _ = None"

definition LineItem_of :: "json \<Rightarrow> LineItem option" where
  "LineItem_of v =
     (case (Option.bind (property ''id'' v) json_primitive,
            Option.bind (property ''title'' v) json_string,
            Option.bind (property ''price'' v) json_int,
            Option.bind (property ''image'' v) json_string,
            Option.bind (property ''quantity'' v) json_int) of
        (Some i, Some t, Some p, Some im, Some q) \<Rightarrow>
          Some \<lparr>id' = i, title = t, price = p, image' = im, quantity = Num q\<rparr>
      | _ \<Rightarrow> None)"

definition items_of :: "json \<Rightarrow> LineItem list option" where
  "items_of v =
     (case property ''items'' v of
        Some (JArray xs) \<Rightarrow> those (map LineItem_of xs)
      | _ \<Rightarrow> None)"

text \<open>The values that count as false in \<^verbatim>\<open>||\<close> and \<^verbatim>\<open>if\<close>.\<close>

fun truthy :: "json \<Rightarrow> bool" where
  "truthy JNull = False"
| "truthy (JBool b) = b"
| "truthy (JNumber n) = (n \<noteq> 0)"
| "truthy (JString s) = (s \<noteq> [])"
| "truthy (JArray xs) = True"
| "truthy (JObject ms) = True"

text \<open>
  \<^verbatim>\<open>JSON.parse(localStorage.getItem('cart')) || null\<close>. With nothing stored
  \<^verbatim>\<open>getItem\<close> returns \<^verbatim>\<open>null\<close>, which \<^verbatim>\<open>JSON.parse\<close> reads as the text
  \<^verbatim>\<open>null\<close>. The function has no handler: an exception of the parser leaves it.
\<close>

definition getCartFromLocalStorage :: "state \<Rightarrow> json parsed" where
  "getCartFromLocalStorage st =
     (case JSON_parse (case localStorage st of None \<Rightarrow> ''null'' | Some stored \<Rightarrow> stored) of
        Parsed v \<Rightarrow> Parsed (if truthy v then v else JNull)
      | SyntaxError \<Rightarrow> SyntaxError
      | Unsupported \<Rightarrow> Unsupported)"

text \<open>
  What \<^verbatim>\<open>fetch(API_URL)\<close> and \<^verbatim>\<open>response.json()\<close> meet: the request fails, or
  a response arrives with this body, which \<^verbatim>\<open>response.json()\<close> parses.
\<close>

datatype response = NetworkError | Body string

text \<open>The \<^verbatim>\<open>catch\<close> block of \<open>fetchCartItems\<close> (the console is not modelled).\<close>

definition catch_error :: "state \<Rightarrow> state" where
  "catch_error st =
     st\<lparr>cartItemsContainer := Html ''<p>Error loading cart. Please try again later.</p>''\<rparr>"

text \<open>
  In every \<open>state\<close> the field \<^verbatim>\<open>this.items\<close> is an array of line items.
  \<open>fetchCartItems\<close> alone can leave another value there, when the document it reads
  has no array under \<^verbatim>\<open>items\<close>. The page after \<open>fetchCartItems\<close> is therefore
  \<open>Cart st\<close>, the state \<open>st\<close>, or \<open>NoCart v st\<close>: \<^verbatim>\<open>this.items\<close> is \<open>v\<close>,
  which is no array (\<open>None\<close> is \<^verbatim>\<open>undefined\<close>), and every other field is as in \<open>st\<close>.
\<close>

datatype loaded = Cart state | NoCart "json option" state

fun page_of :: "loaded \<Rightarrow> state" where
  "page_of (Cart st) = st"
| "page_of (NoCart v st) = st"

text \<open>The values that have the method \<^verbatim>\<open>map\<close>: among parsed values, the arrays.\<close>

fun is_array :: "json option \<Rightarrow> bool" where
  "is_array (Some (JArray xs)) = True"
| "is_array _ = False"

text \<open>
  \<open>fetchCartItems remote\<close>: the method, run to its end, when the network answers
  \<open>remote\<close>. The whole body stands in one \<^verbatim>\<open>try\<close>. After the assignment of line 167
  or 174, \<open>renderCartItems\<close> throws a \<^verbatim>\<open>TypeError\<close> at \<^verbatim>\<open>this.items.map\<close> when
  \<^verbatim>\<open>this.items\<close> is no array, and the \<^verbatim>\<open>catch\<close> block runs; line 174 itself throws
  when the document is \<^verbatim>\<open>null\<close>, before anything is assigned. \<open>None\<close> where a
  document is outside the model: it is \<open>Unsupported\<close>, or its array holds a value that
  is no line item.
\<close>

definition fetchCartItems :: "response \<Rightarrow> state \<Rightarrow> loaded option" where
  "fetchCartItems remote st =
     (case getCartFromLocalStorage st of
        SyntaxError \<Rightarrow> Some (Cart (catch_error st))
      | Unsupported \<Rightarrow> None
      | Parsed storedCart \<Rightarrow>
          if truthy storedCart then
            (if is_array (property ''items'' storedCart) then
               (case items_of storedCart of
                  None \<Rightarrow> None
                | Some its \<Rightarrow> Some (Cart (renderCartItems (st\<lparr>items := its\<rparr>))))
             else Some (NoCart (property ''items'' storedCart) (catch_error st)))
          else
            (let st1 = st\<lparr>requests := requests st @ [API_URL]\<rparr>
             in case remote of
                  NetworkError \<Rightarrow> Some (Cart (catch_error st1))
                | Body b \<Rightarrow>
                    (case JSON_parse b of
                       SyntaxError \<Rightarrow> Some (Cart (catch_error st1))
                     | Unsupported \<Rightarrow> None
                     | Parsed cartData \<Rightarrow>
                         if cartData = JNull then Some (Cart (catch_error st1))
                         else if is_array (property ''items'' cartData) then
                           (case items_of cartData of
                              None \<Rightarrow> None
                            | Some its \<Rightarrow>
                                Some (Cart (saveCartToLocalStorage cartData
                                              (renderCartItems (st1\<lparr>items := its\<rparr>)))))
                         else Some (NoCart (property ''items'' cartData) (catch_error st1)))))"

section \<open>The tokens of a value\<close>

text \<open>
  For the round trip of \<^verbatim>\<open>JSON.stringify\<close> and \<^verbatim>\<open>JSON.parse\<close>: the tokens that
  the text of a value consists of, and the text of a token.
\<close>

fun token_text :: "token \<Rightarrow> string" where
  "token_text LBrace = ''{''"
| "token_text RBrace = ''}''"
| "token_text LBracket = ''[''"
| "token_text RBracket = '']''"
| "token_text Colon = '':''"
| "token_text Comma = '',''"
| "token_text (TString s) = QuoteJSONString s"
| "token_text (TNumber n) = IntToString n"
| "token_text TTrue = ''true''"
| "token_text TFalse = ''false''"
| "token_text TNull = ''null''"

fun tokens :: "json \<Rightarrow> token list" where
  "tokens JNull = [TNull]"
| "tokens (JBool b) = [if b then TTrue else TFalse]"
| "tokens (JNumber n) = [TNumber n]"
| "tokens (JString s) = [TString s]"
| "tokens (JArray xs) = LBracket # join [Comma] (map tokens xs) @ [RBracket]"
| "tokens (JObject ms) =
     LBrace # join [Comma] (map (\<lambda>m. TString (fst m) # Colon # tokens (snd m)) ms) @ [RBrace]"

definition untokens :: "token list \<Rightarrow> string" where
  "untokens ts = concat (map token_text ts)"

text \<open>
  The digits of a number end where a text ends or a comma or a closing bracket follows;
  in the tokens of a value a number is followed by nothing else.
\<close>

definition boundary :: "string \<Rightarrow> bool" where
  "boundary rest = (rest = [] \<or> hd rest \<in> set '',]}'')"

fun is_number_token :: "token \<Rightarrow> bool" where
  "is_number_token (TNumber n) = True"
| "is_number_token _ = False"

fun delimiter :: "token \<Rightarrow> bool" where
  "delimiter Comma = True"
| "delimiter RBracket = True"
| "delimiter RBrace = True"
| "delimiter _ = False"

fun separated :: "token list \<Rightarrow> bool" where
  "separated [] = True"
| "separated [t] = True"
| "separated (t # u # ts) = ((is_number_token t \<longrightarrow> delimiter u) \<and> separated (u # ts))"

text \<open>
  The values that \<^verbatim>\<open>JSON.parse\<close> gives back as they are: the keys of an object are
  distinct, and none is an array index.
\<close>

fun wf_json :: "json \<Rightarrow> bool" where
  "wf_json (JArray xs) = list_all wf_json xs"
| "wf_json (JObject ms) =
     (distinct (map fst ms) \<and> list_all (\<lambda>m. \<not> is_array_index (fst m) \<and> wf_json (snd m)) ms)"
| "wf_json _ = True"

text \<open>What holds of the machine's stack and result while it reads: every value is such a value.\<close>

fun frame_ok :: "frame \<Rightarrow> bool" where
  "frame_ok (Arr es) = list_all wf_json es"
| "frame_ok (Obj ms) = wf_json (JObject ms)"
| "frame_ok (ObjKey ms k) = (wf_json (JObject ms) \<and> \<not> is_array_index k)"

fun expect_ok :: "expect \<Rightarrow> bool" where
  "expect_ok (Finished v) = wf_json v"
| "expect_ok _ = True"

text \<open>The machine goes on from a state that a step has reached.\<close>

definition resume :: "(expect \<times> frame list) parsed \<Rightarrow> token list \<Rightarrow> json parsed" where
  "resume r ts =
     (case r of
        Parsed (e, stk) \<Rightarrow> parse_tokens e stk ts
      | SyntaxError \<Rightarrow> SyntaxError
      | Unsupported \<Rightarrow> Unsupported)"

text \<open>
  A line item that a cart document can hold: neither its identifier nor its quantity is
  \<^verbatim>\<open>NaN\<close> (JSON has no \<^verbatim>\<open>NaN\<close>, \<^verbatim>\<open>JSON.stringify\<close> writes \<^verbatim>\<open>null\<close> for it).
\<close>

definition storable :: "LineItem \<Rightarrow> bool" where
  "storable item = (id' item \<noteq> NumV NaN \<and> quantity item \<noteq> NaN)"

section \<open>Example carts\<close>

text \<open>
  The page before the script runs, two line items (one identified by a number, as in the
  cart document of \<open>API_URL\<close>, one by a string), and the page after the cart of both
  was loaded.
\<close>

definition blank_page :: state where
  "blank_page =
     \<lparr>items = [], subtotal = 0, cartItemsContainer = Html [],
      subtotalElement = Plain [], totalElement = Plain [], cartCountElement = Plain [],
      removeModal = [], itemToRemove = None, localStorage = None, requests = [], fresh = 0\<rparr>"

definition shirt :: LineItem where
  "shirt = \<lparr>id' = NumV (Num 1), title = ''Shirt'', price = 1000, image' = ''shirt.png'', quantity = Num 2\<rparr>"

definition mug :: LineItem where
  "mug = \<lparr>id' = StrV ''mug'', title = ''Mug'', price = 250, image' = ''mug.png'', quantity = Num 1\<rparr>"

definition loaded_page :: state where
  "loaded_page = renderCartItems ((new_CartManager blank_page)\<lparr>items := [shirt, mug]\<rparr>)"

text \<open>The same page with the cart of both items in the store, and with a broken text in it.\<close>

definition stored_page :: state where
  "stored_page = blank_page\<lparr>localStorage := Some (JSON_stringify (cart_json [shirt, mug]))\<rparr>"

definition broken_page :: state where
  "broken_page = blank_page\<lparr>localStorage := Some ''{''\<rparr>"

text \<open>And with JSON texts in the store that are no cart: an empty array, and \<^verbatim>\<open>false\<close>.\<close>

definition array_page :: state where
  "array_page = blank_page\<lparr>localStorage := Some ''[]''\<rparr>"

definition false_page :: state where
  "false_page = blank_page\<lparr>localStorage := Some ''false''\<rparr>"

section \<open>Arithmetic of the aggregates, and numbers as text\<close>

lemma foldl_plus_sum_list:
  fixes a :: number
  shows "foldl (\<lambda>acc x. acc + f x) a xs = a + sum_list (map f xs)"
  by (induction xs arbitrary: a) (simp_all add: add.assoc)

lemma sum_list_Num: "sum_list (map (\<lambda>x. Num (f x)) xs) = Num (sum_list (map f xs))"
  by (induction xs) (simp_all add: zero_number_def)

lemma calculateTotals_fields:
  "items (calculateTotals st) = items st"
  "cartItemsContainer (calculateTotals st) = cartItemsContainer st"
  "removeModal (calculateTotals st) = removeModal st"
  "itemToRemove (calculateTotals st) = itemToRemove st"
  "localStorage (calculateTotals st) = localStorage st"
  "requests (calculateTotals st) = requests st"
  "fresh (calculateTotals st) = fresh st"
  by (simp_all add: calculateTotals_def Let_def)

lemma calculateTotals_subtotal:
  "subtotal (calculateTotals st) = (\<Sum>item\<leftarrow>items st. Num (price item) * quantity item)"
  by (simp add: calculateTotals_def Let_def foldl_plus_sum_list)

lemma calculateTotals_count:
  "cartCountElement (calculateTotals st) = Plain (NumberToString (\<Sum>item\<leftarrow>items st. quantity item))"
  by (simp add: calculateTotals_def Let_def foldl_plus_sum_list)

lemma dec_digit_code:
  "is_radix_digit 10 c \<longleftrightarrow> 48 \<le> (of_char c :: nat) \<and> (of_char c :: nat) \<le> 57"
  by (auto simp: is_radix_digit_def digit_value_def Let_def)

lemma dec_digit_value:
  "is_radix_digit 10 c \<Longrightarrow> digit_value c = Some (of_char c - 48)"
  by (auto simp: is_radix_digit_def digit_value_def Let_def split: if_splits)

lemma digit_char_table: "list_all (\<lambda>d. (of_char (digit_char d) :: nat) = 48 + d) [0..<10]"
  by code_simp

lemma of_char_digit_char: "d < 10 \<Longrightarrow> (of_char (digit_char d) :: nat) = 48 + d"
  using digit_char_table by (simp add: list_all_iff)

lemma digit_char_dec: "d < 10 \<Longrightarrow> is_radix_digit 10 (digit_char d)"
  by (simp add: dec_digit_code of_char_digit_char)

lemma digit_value_digit_char: "d < 10 \<Longrightarrow> digit_value (digit_char d) = Some d"
  by (simp add: dec_digit_value digit_char_dec of_char_digit_char)

lemma digits_dec: "list_all (is_radix_digit 10) (digits n)"
proof (induction n rule: digits.induct)
  case (1 n)
  show ?case
  proof (cases "n < 10")
    case True
    then show ?thesis by (simp add: digits.simps [of n] digit_char_dec)
  next
    case False
    with 1 show ?thesis by (simp add: digits.simps [of n] digit_char_dec)
  qed
qed

lemma digits_not_Nil: "digits n \<noteq> []"
  by (simp add: digits.simps [of n])

lemma radix_value_snoc: "radix_value R (Z @ [c]) = radix_value R Z * R + the (digit_value c)"
  by (simp add: radix_value_def)

lemma radix_value_digits: "radix_value 10 (digits n) = n"
proof (induction n rule: digits.induct)
  case (1 n)
  show ?case
  proof (cases "n < 10")
    case True
    then show ?thesis
      by (simp add: digits.simps [of n] radix_value_def digit_value_digit_char)
  next
    case False
    with 1 have "radix_value 10 (digits (n div 10)) = n div 10" by simp
    with False show ?thesis
      by (simp add: digits.simps [of n] radix_value_snoc digit_value_digit_char)
  qed
qed

lemma hd_digits_dec: "is_radix_digit 10 (hd (digits n))"
  using digits_dec [of n] digits_not_Nil [of n] by (cases "digits n") simp_all

lemma dec_not_special:
  assumes "is_radix_digit 10 c"
  shows "\<not> is_white_space c" "c \<noteq> CHR ''+''" "c \<noteq> CHR ''-''" "c \<noteq> CHR ''x''" "c \<noteq> CHR ''X''"
  using assms by (auto simp: dec_digit_code is_white_space_def Let_def)

lemma take2_digits: "take 2 (digits n) \<noteq> [CHR ''0'', c]" if "\<not> is_radix_digit 10 c"
proof
  assume "take 2 (digits n) = [CHR ''0'', c]"
  then have "c \<in> set (take 2 (digits n))" by simp
  then have "c \<in> set (digits n)" by (rule in_set_takeD)
  with digits_dec [of n] have "is_radix_digit 10 c" by (simp add: list_all_iff)
  with that show False by simp
qed

lemma parseInt_digits: "parseInt (digits n) = Num (int n)"
proof -
  have ws: "dropWhile is_white_space (digits n) = digits n"
    using hd_digits_dec [of n] digits_not_Nil [of n] dec_not_special(1)
    by (cases "digits n") auto
  have sign: "hd (digits n) \<noteq> CHR ''+''" "hd (digits n) \<noteq> CHR ''-''"
    using hd_digits_dec [of n] dec_not_special by blast+
  have nohex: "take 2 (digits n) \<noteq> ''0x''" "take 2 (digits n) \<noteq> ''0X''"
    using take2_digits [of "CHR ''x''" n] take2_digits [of "CHR ''X''" n] dec_not_special(4,5)
    by blast+
  have tw: "takeWhile (is_radix_digit 10) (digits n) = digits n"
    using digits_dec [of n] by (simp add: takeWhile_eq_all_conv list_all_iff)
  show ?thesis
    by (simp add: parseInt_def Let_def ws sign nohex tw digits_not_Nil radix_value_digits)
qed

lemma parseInt_minus_digits: "parseInt (CHR ''-'' # digits n) = Num (- int n)"
proof -
  have ws: "\<not> is_white_space CHR ''-''"
    by (simp add: is_white_space_def)
  have nohex: "take 2 (digits n) \<noteq> ''0x''" "take 2 (digits n) \<noteq> ''0X''"
    using take2_digits [of "CHR ''x''" n] take2_digits [of "CHR ''X''" n] dec_not_special(4,5)
    by blast+
  have tw: "takeWhile (is_radix_digit 10) (digits n) = digits n"
    using digits_dec [of n] by (simp add: takeWhile_eq_all_conv list_all_iff)
  show ?thesis
    by (simp add: parseInt_def Let_def ws nohex tw digits_not_Nil radix_value_digits)
qed

lemma parseInt_IntToString: "parseInt (IntToString n) = Num n"
  by (simp add: IntToString_def parseInt_digits parseInt_minus_digits)

lemma strict_eq_Num: "strict_eq x (NumV (Num n)) \<longleftrightarrow> x = NumV (Num n)"
  by (cases "(x, NumV (Num n))" rule: strict_eq.cases) auto

lemma strict_eq_NaN: "\<not> strict_eq x (NumV NaN)"
  by (cases "(x, NumV NaN)" rule: strict_eq.cases) auto

lemma loaded_page_fields:
  "items loaded_page = [shirt, mug]"
  "cartItemsContainer loaded_page = Rows [createCartItemHTML 0 shirt, createCartItemHTML (Suc 0) mug]"
  "itemToRemove loaded_page = None"
  "localStorage loaded_page = None"
  by (simp_all add: loaded_page_def renderCartItems_def calculateTotals_fields
      new_CartManager_def blank_page_def upt_rec)

section \<open>The aggregates\<close>

lemma sum_list_line_totals:
  "map quantity its = map Num qs \<Longrightarrow>
   (\<Sum>item\<leftarrow>its. Num (price item) * quantity item) = Num (\<Sum>(item, q)\<leftarrow>zip its qs. price item * q)"
proof (induction its arbitrary: qs)
  case Nil
  then show ?case by (simp add: zero_number_def)
next
  case (Cons item its)
  then obtain q qs' where "qs = q # qs'" "quantity item = Num q" "map quantity its = map Num qs'"
    by (cases qs) auto
  with Cons.IH [of qs'] show ?case by simp
qed

lemma sum_list_quantities:
  "map quantity its = map Num qs \<Longrightarrow> (\<Sum>item\<leftarrow>its. quantity item) = Num (sum_list qs)"
proof -
  assume "map quantity its = map Num qs"
  then have "(\<Sum>item\<leftarrow>its. quantity item) = sum_list (map Num qs)"
    by (simp add: comp_def flip: map_map)
  also have "\<dots> = Num (sum_list qs)"
    using sum_list_Num [of "\<lambda>q. q" qs] by simp
  finally show ?thesis .
qed

lemma calculateTotals_integers:
  assumes "map quantity (items st) = map Num qs"
  shows "subtotal (calculateTotals st) = Num (\<Sum>(item, q)\<leftarrow>zip (items st) qs. price item * q)"
    and "subtotalElement (calculateTotals st)
           = formatCurrency (Num (\<Sum>(item, q)\<leftarrow>zip (items st) qs. price item * q))"
    and "totalElement (calculateTotals st)
           = formatCurrency (Num (\<Sum>(item, q)\<leftarrow>zip (items st) qs. price item * q))"
    and "cartCountElement (calculateTotals st) = Plain (IntToString (sum_list qs))"
proof -
  have e: "subtotalElement (calculateTotals st) = formatCurrency (subtotal (calculateTotals st))"
    "totalElement (calculateTotals st) = formatCurrency (subtotal (calculateTotals st))"
    by (simp_all add: calculateTotals_def Let_def)
  show s: "subtotal (calculateTotals st) = Num (\<Sum>(item, q)\<leftarrow>zip (items st) qs. price item * q)"
    using sum_list_line_totals [OF assms] by (simp add: calculateTotals_subtotal)
  show "subtotalElement (calculateTotals st)
           = formatCurrency (Num (\<Sum>(item, q)\<leftarrow>zip (items st) qs. price item * q))"
    "totalElement (calculateTotals st)
           = formatCurrency (Num (\<Sum>(item, q)\<leftarrow>zip (items st) qs. price item * q))"
    by (simp_all only: e s)
  show "cartCountElement (calculateTotals st) = Plain (IntToString (sum_list qs))"
    using sum_list_quantities [OF assms] by (simp add: calculateTotals_count)
qed

text \<open>
  Claim C1. For every cart of integer prices and quantities in which the prices, the
  quantities, the line totals and the sums that \<^verbatim>\<open>reduce\<close> passes through are safe
  integers, \<open>calculateTotals\<close> leaves in \<open>subtotal\<close>, and shows in the subtotal and
  total elements, the sum over all line items of unit price times quantity, and shows as
  the cart count the sum of all quantities.
\<close>

theorem calculateTotals_sums:
  assumes "map quantity (items st) = map Num qs"
    and "list_all safe_integer (map price (items st))"
    and "safe_sum 0 (map (\<lambda>(item, q). price item * q) (zip (items st) qs))"
    and "safe_sum 0 qs"
  shows "subtotal (calculateTotals st) = Num (\<Sum>(item, q)\<leftarrow>zip (items st) qs. price item * q) \<and>
         subtotalElement (calculateTotals st)
           = formatCurrency (Num (\<Sum>(item, q)\<leftarrow>zip (items st) qs. price item * q)) \<and>
         totalElement (calculateTotals st)
           = formatCurrency (Num (\<Sum>(item, q)\<leftarrow>zip (items st) qs. price item * q)) \<and>
         cartCountElement (calculateTotals st) = Plain (IntToString (sum_list qs))"
  using calculateTotals_integers [OF assms(1)] by simp

theorem calculateTotals_sums_witness:
  "map quantity (items loaded_page) = map Num [2, 1] \<and>
   list_all safe_integer (map price (items loaded_page)) \<and>
   safe_sum 0 (map (\<lambda>(item, q). price item * q) (zip (items loaded_page) [2, 1])) \<and>
   safe_sum 0 [2, 1] \<and>
   subtotal (calculateTotals loaded_page) = Num 2250 \<and>
   subtotalElement (calculateTotals loaded_page) = formatCurrency (Num 2250) \<and>
   cartCountElement (calculateTotals loaded_page) = Plain ''3''"
proof -
  have h: "map quantity (items loaded_page) = map Num [2, 1]"
    "list_all safe_integer (map price (items loaded_page))"
    "safe_sum 0 (map (\<lambda>(item, q). price item * q) (zip (items loaded_page) [2, 1]))"
    "safe_sum 0 [2, 1]"
    by (simp_all add: loaded_page_fields shirt_def mug_def safe_integer_def)
  from calculateTotals_sums [OF h] h show ?thesis
    by (simp add: loaded_page_fields shirt_def mug_def IntToString_def digits.simps digit_char_def)
qed

section \<open>The two lookups\<close>

lemma find_item_v1_numeric:
  "list_all (\<lambda>item. \<exists>k. id' item = NumV k) its \<Longrightarrow> find_item_v1 its itemId = None"
  by (induction its) (auto simp: find_item_v1_def)

text \<open>
  Claim C9. The lookup of the first copy compares the row's identifier, a string, with
  the item's identifier; the lookup of the second copy compares the number read from the
  row's identifier. There is a cart with numeric identifiers, and a row rendered for one
  of its items, where the first lookup finds nothing and the second finds the item.
\<close>

theorem lookups_disagree:
  "\<exists>its item n.
     item \<in> set its \<and> list_all (\<lambda>i. \<exists>k. id' i = NumV (Num k)) its \<and>
     find_item_v1 its (data_id (createCartItemHTML n item)) = None \<and>
     find_item its (data_id (createCartItemHTML n item)) = Some item"
proof -
  have "find_item_v1 [shirt] (data_id (createCartItemHTML 0 shirt)) = None"
    by (simp add: find_item_v1_def shirt_def)
  moreover have "find_item [shirt] (data_id (createCartItemHTML 0 shirt)) = Some shirt"
    by (simp add: find_item_def shirt_def createCartItemHTML_def parseInt_IntToString)
  moreover have "list_all (\<lambda>i. \<exists>k. id' i = NumV (Num k)) [shirt]"
    by (simp add: shirt_def)
  ultimately show ?thesis
    by (intro exI [of _ "[shirt]"] exI [of _ shirt] exI [of _ 0]) simp
qed

text \<open>On an identifier that is a string it is the other way round.\<close>

lemma lookups_on_string_identifier:
  "find_item_v1 [mug] (data_id (createCartItemHTML 0 mug)) = Some mug \<and>
   find_item [mug] (data_id (createCartItemHTML 0 mug)) = None"
  by (simp add: find_item_v1_def find_item_def createCartItemHTML_def mug_def strict_eq_NaN
      parseInt_def is_white_space_def is_radix_digit_def digit_value_def)

section \<open>Removal\<close>

lemma removeItem_no_match:
  "\<forall>item\<in>set its. \<not> strict_eq (id' item) (NumV (parseInt itemId)) \<Longrightarrow> removeItem its itemId = its"
  by (simp add: removeItem_def)

lemma removeItem_IntToString:
  "removeItem its (IntToString n) = filter (\<lambda>item. id' item \<noteq> NumV (Num n)) its"
  by (simp add: removeItem_def parseInt_IntToString strict_eq_Num)

lemma removeItem_keeps_strings:
  "item \<in> set its \<Longrightarrow> id' item = StrV s \<Longrightarrow> item \<in> set (removeItem its itemId)"
  by (simp add: removeItem_def)

lemma removeItem_NaN: "parseInt itemId = NaN \<Longrightarrow> removeItem its itemId = its"
  by (simp add: removeItem_def strict_eq_NaN)

text \<open>
  Claim C6, as amended. The filter of \<open>confirmRemoveItem\<close> reads the row's identifier
  with \<^verbatim>\<open>parseInt\<close>. For every cart and every safe integer \<open>n\<close>, applied to the text
  of \<open>n\<close> it removes exactly the line items whose identifier is the number \<open>n\<close> and
  keeps the others in their order, and it leaves a cart without such an item unchanged.
  Whatever text the row carries, every line item whose identifier is a string stays in
  the cart, and a text from which \<^verbatim>\<open>parseInt\<close> reads no number removes nothing.
\<close>

theorem removeItem_integer_identifier:
  "(safe_integer n \<longrightarrow>
      removeItem its (ToString (NumV (Num n))) = filter (\<lambda>item. id' item \<noteq> NumV (Num n)) its \<and>
      (NumV (Num n) \<notin> id' ` set its \<longrightarrow> removeItem its (ToString (NumV (Num n))) = its)) \<and>
   (\<forall>item\<in>set its. (\<exists>s. id' item = StrV s) \<longrightarrow> item \<in> set (removeItem its itemId)) \<and>
   (parseInt itemId = NaN \<longrightarrow> removeItem its itemId = its)"
proof -
  have "removeItem its (ToString (NumV (Num n))) = filter (\<lambda>item. id' item \<noteq> NumV (Num n)) its"
    by (simp add: removeItem_IntToString)
  moreover have "filter (\<lambda>item. id' item \<noteq> NumV (Num n)) its = its" if "NumV (Num n) \<notin> id' ` set its"
    using that by (induction its) auto
  moreover have "\<forall>item\<in>set its. (\<exists>s. id' item = StrV s) \<longrightarrow> item \<in> set (removeItem its itemId)"
    using removeItem_keeps_strings by blast
  moreover have "parseInt itemId = NaN \<longrightarrow> removeItem its itemId = its"
    using removeItem_NaN by blast
  ultimately show ?thesis by simp
qed

theorem removeItem_integer_identifier_witness:
  "safe_integer 1 \<and> removeItem [shirt, mug] (ToString (NumV (Num 1))) = [mug] \<and>
   safe_integer 7 \<and> NumV (Num 7) \<notin> id' ` set [shirt, mug] \<and>
   removeItem [shirt, mug] (ToString (NumV (Num 7))) = [shirt, mug] \<and>
   mug \<in> set [shirt, mug] \<and> id' mug = StrV ''mug'' \<and>
   mug \<in> set (removeItem [shirt, mug] (ToString (NumV (Num 1)))) \<and>
   parseInt ''mug'' = NaN \<and> removeItem [shirt, mug] ''mug'' = [shirt, mug]"
proof -
  have p: "parseInt ''mug'' = NaN"
    by (simp add: parseInt_def is_white_space_def is_radix_digit_def digit_value_def)
  from removeItem_integer_identifier [of 1 "[shirt, mug]" "ToString (NumV (Num 1))"]
    removeItem_integer_identifier [of 7 "[shirt, mug]" "''mug''"] p
  show ?thesis
    by (simp add: shirt_def mug_def safe_integer_def)
qed

text \<open>
  The claim as stated, for every identifier, fails on an identifier that is a string:
  the filter applied to the identifier of \<open>mug\<close> leaves \<open>mug\<close> in the cart.
\<close>

theorem removeItem_string_identifier:
  "mug \<in> set [shirt, mug] \<and> removeItem [shirt, mug] (ToString (id' mug)) = [shirt, mug]"
  by (simp add: removeItem_def shirt_def mug_def strict_eq_NaN parseInt_def is_white_space_def
      is_radix_digit_def digit_value_def)

lemma closeRemoveModal_fields:
  "items (closeRemoveModal st) = items st"
  "subtotal (closeRemoveModal st) = subtotal st"
  "cartItemsContainer (closeRemoveModal st) = cartItemsContainer st"
  "subtotalElement (closeRemoveModal st) = subtotalElement st"
  "totalElement (closeRemoveModal st) = totalElement st"
  "cartCountElement (closeRemoveModal st) = cartCountElement st"
  "localStorage (closeRemoveModal st) = localStorage st"
  "itemToRemove (closeRemoveModal st) = None"
  "removeModal (closeRemoveModal st) = ''none''"
  by (simp_all add: closeRemoveModal_def)

lemma saveCartToLocalStorage_fields:
  "items (saveCartToLocalStorage c st) = items st"
  "subtotal (saveCartToLocalStorage c st) = subtotal st"
  "cartItemsContainer (saveCartToLocalStorage c st) = cartItemsContainer st"
  "subtotalElement (saveCartToLocalStorage c st) = subtotalElement st"
  "totalElement (saveCartToLocalStorage c st) = totalElement st"
  "cartCountElement (saveCartToLocalStorage c st) = cartCountElement st"
  "itemToRemove (saveCartToLocalStorage c st) = itemToRemove st"
  "removeModal (saveCartToLocalStorage c st) = removeModal st"
  "requests (saveCartToLocalStorage c st) = requests st"
  "localStorage (saveCartToLocalStorage c st) = Some (JSON_stringify c)"
  by (simp_all add: saveCartToLocalStorage_def)

lemma remove_row_fields:
  "items (remove_row n st) = items st"
  "subtotal (remove_row n st) = subtotal st"
  "itemToRemove (remove_row n st) = itemToRemove st"
  "removeModal (remove_row n st) = removeModal st"
  "localStorage (remove_row n st) = localStorage st"
  by (simp_all add: remove_row_def split: container.splits)

lemma remove_row_items_update:
  "cartItemsContainer (remove_row n (st\<lparr>items := its\<rparr>)) = cartItemsContainer (remove_row n st)"
  by (simp add: remove_row_def split: container.splits)

lemma confirmRemoveItem_pending:
  assumes "itemToRemove st = Some pending"
  shows "confirmRemoveItem st =
         closeRemoveModal
           (saveCartToLocalStorage (cart_json (removeItem (items st) (data_id pending)))
              (calculateTotals (remove_row (node pending)
                 (st\<lparr>items := removeItem (items st) (data_id pending)\<rparr>))))"
  using assms by (simp add: confirmRemoveItem_def Let_def calculateTotals_fields remove_row_fields)

lemma confirmRemoveItem_effects:
  assumes "itemToRemove st = Some pending"
  shows "items (confirmRemoveItem st) = removeItem (items st) (data_id pending)"
    and "cartItemsContainer (confirmRemoveItem st) = cartItemsContainer (remove_row (node pending) st)"
    and "subtotal (confirmRemoveItem st) =
           (\<Sum>item\<leftarrow>removeItem (items st) (data_id pending). Num (price item) * quantity item)"
    and "cartCountElement (confirmRemoveItem st) =
           Plain (NumberToString (\<Sum>item\<leftarrow>removeItem (items st) (data_id pending). quantity item))"
    and "localStorage (confirmRemoveItem st) =
           Some (JSON_stringify (cart_json (removeItem (items st) (data_id pending))))"
    and "itemToRemove (confirmRemoveItem st) = None"
    and "removeModal (confirmRemoveItem st) = ''none''"
proof -
  let ?its = "removeItem (items st) (data_id pending)"
  let ?st2 = "remove_row (node pending) (st\<lparr>items := ?its\<rparr>)"
  note c = confirmRemoveItem_pending [OF assms]
  have items2: "items ?st2 = ?its"
    by (simp add: remove_row_fields)
  show "items (confirmRemoveItem st) = ?its"
    by (simp add: c closeRemoveModal_fields saveCartToLocalStorage_fields calculateTotals_fields
        remove_row_fields)
  show "cartItemsContainer (confirmRemoveItem st) = cartItemsContainer (remove_row (node pending) st)"
    by (simp add: c closeRemoveModal_fields saveCartToLocalStorage_fields calculateTotals_fields
        remove_row_items_update)
  show "subtotal (confirmRemoveItem st) = (\<Sum>item\<leftarrow>?its. Num (price item) * quantity item)"
    using calculateTotals_subtotal [of ?st2]
    by (simp add: c closeRemoveModal_fields saveCartToLocalStorage_fields items2)
  show "cartCountElement (confirmRemoveItem st) = Plain (NumberToString (\<Sum>item\<leftarrow>?its. quantity item))"
    using calculateTotals_count [of ?st2]
    by (simp add: c closeRemoveModal_fields saveCartToLocalStorage_fields items2)
  show "localStorage (confirmRemoveItem st) = Some (JSON_stringify (cart_json ?its))"
    by (simp add: c closeRemoveModal_fields saveCartToLocalStorage_fields)
  show "itemToRemove (confirmRemoveItem st) = None" "removeModal (confirmRemoveItem st) = ''none''"
    by (simp_all add: c closeRemoveModal_fields)
qed

lemma remove_click_loaded:
  "remove_click 0 loaded_page = (loaded_page\<lparr>itemToRemove := Some (createCartItemHTML 0 shirt), removeModal := ''block''\<rparr>)"
  "remove_click (Suc 0) loaded_page = (loaded_page\<lparr>itemToRemove := Some (createCartItemHTML (Suc 0) mug), removeModal := ''block''\<rparr>)"
  by (simp_all add: remove_click_def find_row_def loaded_page_fields showRemoveModal_def
      createCartItemHTML_def)

text \<open>
  Claim C10. With no pending removal, \<open>confirmRemoveItem\<close> changes nothing: the
  items, the aggregates, the stored text and the modal are as before.
\<close>

theorem confirmRemoveItem_idle:
  "itemToRemove st = None \<Longrightarrow> confirmRemoveItem st = st"
  by (simp add: confirmRemoveItem_def)

theorem confirmRemoveItem_idle_witness:
  "itemToRemove loaded_page = None \<and> confirmRemoveItem loaded_page = loaded_page"
proof -
  have h: "itemToRemove loaded_page = None"
    by (simp add: loaded_page_def renderCartItems_def calculateTotals_fields
        new_CartManager_def blank_page_def)
  from confirmRemoveItem_idle [OF h] h show ?thesis by simp
qed

section \<open>Quantity\<close>

text \<open>The decrease button refuses at 1, and leaves the page as it is.\<close>

lemma decrease_click_refused:
  assumes "find_row n st = Some r" "StringToNumber (input_value r) = Some x" "\<not> exceeds_one x"
  shows "decrease_click n st = Some st"
  using assms by (simp add: decrease_click_def)

lemma StringToNumber_integer:
  assumes "s \<noteq> []" "list_all (is_radix_digit 10) s"
  shows "StringToNumber s = Some (Decimal False (radix_value 10 s) 0)"
proof -
  have all: "\<And>c. c \<in> set s \<Longrightarrow> is_radix_digit 10 c"
    using assms(2) by (simp add: list_all_iff)
  have h: "hd s \<noteq> CHR ''-''"
    using assms(1) all dec_not_special(3) by (cases s) auto
  have tw: "takeWhile (is_radix_digit 10) s = s" "dropWhile (is_radix_digit 10) s = []"
    using all by (simp_all add: takeWhile_eq_all_conv)
  have ball: "\<forall>c\<in>set s. is_radix_digit 10 c"
    using all by blast
  show ?thesis
    by (simp add: StringToNumber_def Let_def assms(1) h tw ball)
qed

lemma digit_one: "is_radix_digit 10 CHR ''1''" "radix_value 10 ''1'' = 1"
  by (simp_all add: is_radix_digit_def digit_value_def radix_value_def)

lemma decrease_click_at_one:
  "find_row n st = Some r \<Longrightarrow> input_value r = ''1'' \<Longrightarrow> decrease_click n st = Some st"
proof -
  assume r: "find_row n st = Some r" and v: "input_value r = ''1''"
  have "StringToNumber (input_value r) = Some (Decimal False 1 0)"
    unfolding v using StringToNumber_integer [of "''1''"] by (simp add: digit_one)
  with r show ?thesis
    by (rule decrease_click_refused) simp
qed

lemma decrease_click_mug: "decrease_click (Suc 0) loaded_page = Some loaded_page"
  by (rule decrease_click_at_one [where r = "createCartItemHTML (Suc 0) mug"])
    (simp_all add: find_row_def loaded_page_fields createCartItemHTML_def mug_def
      IntToString_def digits.simps digit_char_def)

lemma parseInt_decimal:
  assumes "body \<noteq> []" "list_all (is_radix_digit 10) body"
  shows "parseInt body = Num (int (radix_value 10 body))"
    and "parseInt (CHR ''-'' # body) = Num (- int (radix_value 10 body))"
proof -
  have all: "\<And>c. c \<in> set body \<Longrightarrow> is_radix_digit 10 c"
    using assms(2) by (simp add: list_all_iff)
  have h: "is_radix_digit 10 (hd body)"
    using assms(1) all by simp
  have ws: "dropWhile is_white_space body = body"
    using assms(1) h dec_not_special(1) by (cases body) auto
  have sign: "hd body \<noteq> CHR ''+''" "hd body \<noteq> CHR ''-''"
    using h dec_not_special by blast+
  have nohex: "take 2 body \<noteq> ''0x''" "take 2 body \<noteq> ''0X''"
  proof -
    have "c \<in> set (take 2 body) \<Longrightarrow> is_radix_digit 10 c" for c
      using all in_set_takeD by fastforce
    then have "CHR ''x'' \<notin> set (take 2 body)" "CHR ''X'' \<notin> set (take 2 body)"
      using dec_not_special(4,5) by blast+
    then show "take 2 body \<noteq> ''0x''" "take 2 body \<noteq> ''0X''"
      by auto
  qed
  have tw: "takeWhile (is_radix_digit 10) body = body"
    using all by (simp add: takeWhile_eq_all_conv)
  have m: "\<not> is_white_space CHR ''-''"
    by (simp add: is_white_space_def)
  show "parseInt body = Num (int (radix_value 10 body))"
    by (simp add: parseInt_def Let_def ws sign nohex tw assms(1))
  show "parseInt (CHR ''-'' # body) = Num (- int (radix_value 10 body))"
    by (simp add: parseInt_def Let_def m nohex tw assms(1))
qed

lemma find_row_update_row:
  assumes "\<And>r. node (f r) = node r"
  shows "find_row n (update_row n f st) = map_option f (find_row n st)"
proof (cases "cartItemsContainer st")
  case (Rows rs)
  have "find (\<lambda>r. node r = n) (map (\<lambda>r. if node r = n then f r else r) rs)
        = map_option f (find (\<lambda>r. node r = n) rs)"
    by (induction rs) (simp_all add: assms)
  with Rows show ?thesis by (simp add: find_row_def update_row_def)
next
  case (Html h)
  then show ?thesis by (simp add: find_row_def update_row_def)
qed

lemma update_row_items: "items (update_row n f st) = items st"
  by (simp add: update_row_def split: container.splits)

lemma assign_first_set: "set (assign_first P f xs) \<subseteq> set xs \<union> f ` set xs"
  by (induction xs) auto

text \<open>The quantities after \<open>updateItemQuantity\<close>: the old ones, and what the input holds.\<close>

lemma updateItemQuantity_quantities:
  assumes "find_row n st = Some r" "item \<in> set (items (updateItemQuantity n st))"
  shows "quantity item \<in> quantity ` set (items st) \<or> quantity item = parseInt (input_value r)"
proof (cases "find_item (items st) (data_id r)")
  case None
  with assms show ?thesis by (simp add: updateItemQuantity_def)
next
  case (Some found)
  with assms(1) have
    "items (updateItemQuantity n st)
     = assign_first (\<lambda>item. strict_eq (id' item) (NumV (parseInt (data_id r))))
         (\<lambda>item. item\<lparr>quantity := parseInt (input_value r)\<rparr>) (items st)"
    by (simp add: updateItemQuantity_def Let_def saveCartToLocalStorage_fields calculateTotals_fields
        update_row_items)
  with assms(2) assign_first_set show ?thesis by fastforce
qed

text \<open>
  While the input of the row holds the digits of a safe integer, the decrease button
  keeps the floor: where every quantity is above 0 before the click, every quantity is
  above 0 after it.
\<close>

lemma decrease_click_floor:
  assumes floor: "\<forall>item\<in>set (items st). greater (quantity item) (Num 0)"
    and row: "find_row n st = Some r"
    and held: "list_all (is_radix_digit 10) (input_value r)"
      "safe_integer (int (radix_value 10 (input_value r)))"
    and click: "decrease_click n st = Some st'"
  shows "\<forall>item\<in>set (items st'). greater (quantity item) (Num 0)"
proof (cases "input_value r = []")
  case True
  then have "StringToNumber (input_value r) = Some (Decimal False 0 0)"
    by (simp add: StringToNumber_def)
  with row have "decrease_click n st = Some st"
    by (rule decrease_click_refused) simp
  with click floor show ?thesis by simp
next
  case False
  define q where "q = radix_value 10 (input_value r)"
  have x: "StringToNumber (input_value r) = Some (Decimal False q 0)"
    unfolding q_def using False held(1) by (rule StringToNumber_integer)
  have p: "parseInt (input_value r) = Num (int q)"
    unfolding q_def using False held(1) by (rule parseInt_decimal(1))
  show ?thesis
  proof (cases "2 \<le> q")
    case False
    with row x have "decrease_click n st = Some st"
      by (intro decrease_click_refused [where x = "Decimal False q 0"]) simp_all
    with click floor show ?thesis by simp
  next
    case True
    let ?st1 = "update_row n (\<lambda>r. r\<lparr>input_value := number_input_value (parseInt (input_value r) - Num 1)\<rparr>) st"
    have st': "st' = updateItemQuantity n ?st1"
      using row x True click by (simp add: decrease_click_def)
    have row1: "find_row n ?st1 = Some (r\<lparr>input_value := IntToString (int q - 1)\<rparr>)"
      by (simp add: find_row_update_row row p)
    show ?thesis
    proof
      fix item assume "item \<in> set (items st')"
      from updateItemQuantity_quantities [OF row1 this [unfolded st']]
      have "quantity item \<in> quantity ` set (items st) \<or> quantity item = Num (int q - 1)"
        by (simp add: update_row_items parseInt_IntToString)
      with floor True show "greater (quantity item) (Num 0)" by auto
    qed
  qed
qed

text \<open>
  The guard of the decrease button compares the text of the input, and the new quantity
  is read from it with \<^verbatim>\<open>parseInt\<close>. With the text \<^verbatim>\<open>1.5\<close> in the input of the first
  row the item has the quantity 1, the guard lets the click pass, and the quantity is 0
  afterwards.
\<close>

lemma decrease_click_fraction:
  "items (quantity_change 0 ''1.5'' loaded_page) = [shirt\<lparr>quantity := Num 1\<rparr>, mug] \<and>
   map_option items (decrease_click 0 (quantity_change 0 ''1.5'' loaded_page))
     = Some [shirt\<lparr>quantity := Num 0\<rparr>, mug]"
  by (simp add: quantity_change_def decrease_click_def updateItemQuantity_def update_row_def
      find_row_def loaded_page_fields Let_def find_item_def createCartItemHTML_def
      parseInt_IntToString calculateTotals_fields saveCartToLocalStorage_fields shirt_def mug_def
      parseInt_def StringToNumber_def is_white_space_def is_radix_digit_def digit_value_def
      radix_value_def IntToString_def digits.simps digit_char_def)

text \<open>
  Claim C5 does not hold of the script. The guard stands in the listener of the decrease
  button alone: the change listener passes every edit of the input to
  \<open>updateItemQuantity\<close>. After
  the text \<^verbatim>\<open>0\<close> is typed into the input of the first row the item has the quantity 0,
  in the cart and in the store.
\<close>

theorem quantity_change_zero:
  "items (quantity_change 0 ''0'' loaded_page) = [shirt\<lparr>quantity := Num 0\<rparr>, mug] \<and>
   localStorage (quantity_change 0 ''0'' loaded_page)
     = Some (JSON_stringify (cart_json [shirt\<lparr>quantity := Num 0\<rparr>, mug]))"
  by (simp add: quantity_change_def updateItemQuantity_def update_row_def find_row_def
      loaded_page_fields Let_def find_item_def createCartItemHTML_def parseInt_IntToString
      calculateTotals_fields saveCartToLocalStorage_fields shirt_def mug_def
      parseInt_def is_white_space_def is_radix_digit_def digit_value_def radix_value_def
      IntToString_def digits.simps digit_char_def)

section \<open>\<^verbatim>\<open>JSON.parse\<close> reads what \<^verbatim>\<open>JSON.stringify\<close> writes\<close>

subsection \<open>The text of a value is cut into its tokens\<close>

lemma char_code_eq: "(of_char c :: nat) = of_char d \<Longrightarrow> c = d"
  by simp

lemma hex_char_table: "list_all (\<lambda>d. digit_value (hex_char d) = Some d) [0..<16]"
  by code_simp

lemma digit_value_hex_char: "d < 16 \<Longrightarrow> digit_value (hex_char d) = Some d"
  using hex_char_table by (simp add: list_all_iff)

lemma digit_value_zero: "digit_value CHR ''0'' = Some 0"
  by (simp add: digit_value_def)

lemma hex4_control:
  assumes "k < 32"
  shows "hex4 [CHR ''0'', CHR ''0'', hex_char (k div 16), hex_char (k mod 16)] = Some k"
proof -
  have d: "k div 16 < 16" "k mod 16 < 16"
    using assms by simp_all
  have "radix_value 16 [CHR ''0'', CHR ''0'', hex_char (k div 16), hex_char (k mod 16)] = k"
    by (simp add: radix_value_def digit_value_zero digit_value_hex_char d)
  then show ?thesis
    by (simp add: hex4_def is_radix_digit_def digit_value_zero digit_value_hex_char d)
qed

lemma lex_string_plain:
  assumes "(of_char c :: nat) \<noteq> 0x22" "(of_char c :: nat) \<noteq> 0x5C" "\<not> (of_char c :: nat) < 0x20"
  shows "lex_string (c # tail) = add_char c (lex_string tail)"
proof -
  have "c \<noteq> CHR 0x22" "c \<noteq> CHR 0x5C"
    using assms by auto
  with assms(3) show ?thesis by simp
qed

lemma lex_string_escape_u:
  assumes "k < 32"
  shows "lex_string (CHR 0x5C # CHR ''u'' # CHR ''0'' # CHR ''0'' # hex_char (k div 16) # hex_char (k mod 16) # tail)
         = add_char (char_of k) (lex_string tail)"
  using assms hex4_control [OF assms] by simp

lemma lex_string_quote_char: "lex_string (quote_char c @ tail) = add_char c (lex_string tail)"
proof -
  define k where "k = (of_char c :: nat)"
  have ck: "char_of k = c" by (simp add: k_def)
  consider "k = 0x22" | "k = 0x5C" | "k = 0x08" | "k = 0x0C" | "k = 0x0A" | "k = 0x0D" | "k = 0x09"
    | "k < 0x20" "k \<notin> {0x08, 0x0C, 0x0A, 0x0D, 0x09}"
    | "\<not> k < 0x20" "k \<noteq> 0x22" "k \<noteq> 0x5C"
    by auto
  then show ?thesis
  proof cases
    case 1
    then have "c = CHR 0x22" unfolding k_def by (intro char_code_eq) simp
    then show ?thesis by (simp add: quote_char_def)
  next
    case 2
    then have "c = CHR 0x5C" unfolding k_def by (intro char_code_eq) simp
    then show ?thesis by (simp add: quote_char_def)
  next
    case 3
    then have "c = CHR 0x08" unfolding k_def by (intro char_code_eq) simp
    then show ?thesis by (simp add: quote_char_def)
  next
    case 4
    then have "c = CHR 0x0C" unfolding k_def by (intro char_code_eq) simp
    then show ?thesis by (simp add: quote_char_def)
  next
    case 5
    then have "c = CHR 0x0A" unfolding k_def by (intro char_code_eq) simp
    then show ?thesis by (simp add: quote_char_def)
  next
    case 6
    then have "c = CHR 0x0D" unfolding k_def by (intro char_code_eq) simp
    then show ?thesis by (simp add: quote_char_def)
  next
    case 7
    then have "c = CHR 0x09" unfolding k_def by (intro char_code_eq) simp
    then show ?thesis by (simp add: quote_char_def)
  next
    case 8
    then have q: "quote_char c = [CHR 0x5C, CHR ''u'', CHR ''0'', CHR ''0'', hex_char (k div 16), hex_char (k mod 16)]"
      by (auto simp: quote_char_def Let_def k_def)
    show ?thesis
      unfolding q using lex_string_escape_u [OF 8(1), of tail] by (simp add: ck)
  next
    case 9
    then have q: "quote_char c = [c]"
      by (auto simp: quote_char_def Let_def k_def)
    show ?thesis
      unfolding q using lex_string_plain [of c tail] 9 by (simp add: k_def)
  qed
qed

lemma lex_string_quoted:
  "lex_string (concat (map quote_char s) @ CHR 0x22 # rest) = Parsed (s, rest)"
  by (induction s) (simp_all add: lex_string_quote_char del: lex_string.simps(2), simp)

lemma digits_leading: "0 < n \<Longrightarrow> hd (digits n) \<noteq> CHR ''0''"
proof (induction n rule: digits.induct)
  case (1 n)
  show ?case
  proof (cases "n < 10")
    case True
    with "1.prems" have "(of_char (digit_char n) :: nat) \<noteq> of_char CHR ''0''"
      by (simp add: of_char_digit_char)
    then have "digit_char n \<noteq> CHR ''0''" by auto
    with True show ?thesis by (simp add: digits.simps [of n])
  next
    case False
    then have "0 < n div 10" by simp
    with 1 False have "hd (digits (n div 10)) \<noteq> CHR ''0''" by simp
    with False show ?thesis by (simp add: digits.simps [of n] digits_not_Nil)
  qed
qed

lemma digits_no_leading_zero: "\<not> (hd (digits n) = CHR ''0'' \<and> 1 < length (digits n))"
proof (cases "n < 10")
  case True
  then show ?thesis by (simp add: digits.simps [of n])
next
  case False
  then have "0 < n" by simp
  from digits_leading [OF this] show ?thesis by simp
qed

lemma boundary_not_dec: "boundary rest \<Longrightarrow> rest \<noteq> [] \<Longrightarrow> \<not> is_radix_digit 10 (hd rest)"
  by (auto simp: boundary_def dec_digit_code)

lemma takeWhile_digits_boundary:
  assumes "boundary rest"
  shows "takeWhile (is_radix_digit 10) (digits m @ rest) = digits m"
    and "dropWhile (is_radix_digit 10) (digits m @ rest) = rest"
proof -
  have all: "\<And>x. x \<in> set (digits m) \<Longrightarrow> is_radix_digit 10 x"
    using digits_dec [of m] by (simp add: list_all_iff)
  have r: "takeWhile (is_radix_digit 10) rest = []" "dropWhile (is_radix_digit 10) rest = rest"
    using boundary_not_dec [OF assms] by (cases rest; simp)+
  show "takeWhile (is_radix_digit 10) (digits m @ rest) = digits m"
    by (simp add: takeWhile_append2 all r)
  show "dropWhile (is_radix_digit 10) (digits m @ rest) = rest"
    by (simp add: dropWhile_append2 all r)
qed

lemma lex_number_digits:
  assumes "boundary rest"
  shows "lex_number (digits m @ rest) = Parsed (int m, rest)"
proof -
  have hd: "hd (digits m) \<noteq> CHR ''-''"
    using hd_digits_dec [of m] dec_not_special(3) by blast
  have b: "\<not> (rest \<noteq> [] \<and> hd rest \<in> set ''.eE'')"
    using assms by (auto simp: boundary_def)
  show ?thesis
    using b digits_no_leading_zero [of m]
    by (simp add: lex_number_def Let_def hd takeWhile_digits_boundary [OF assms]
        digits_not_Nil radix_value_digits)
qed

lemma lex_number_minus_digits:
  assumes "boundary rest"
  shows "lex_number (CHR ''-'' # digits m @ rest) = Parsed (- int m, rest)"
proof -
  have b: "\<not> (rest \<noteq> [] \<and> hd rest \<in> set ''.eE'')"
    using assms by (auto simp: boundary_def)
  show ?thesis
    using b digits_no_leading_zero [of m]
    by (simp add: lex_number_def Let_def takeWhile_digits_boundary [OF assms]
        digits_not_Nil radix_value_digits)
qed

lemma lex_number_IntToString:
  "boundary rest \<Longrightarrow> lex_number (IntToString n @ rest) = Parsed (n, rest)"
  by (simp add: IntToString_def lex_number_digits lex_number_minus_digits)

lemma dec_not_json_special:
  assumes "is_radix_digit 10 c"
  shows "\<not> is_json_space c" "c \<noteq> CHR ''{''" "c \<noteq> CHR ''}''" "c \<noteq> CHR ''[''" "c \<noteq> CHR '']''"
    "c \<noteq> CHR '':''" "c \<noteq> CHR '',''" "c \<noteq> CHR 0x22"
  using assms by (auto simp: dec_digit_code is_json_space_def)

lemma lex_number_start:
  assumes "c = CHR ''-'' \<or> is_radix_digit 10 c"
  shows "lex (c # cs) =
         (case lex_number (c # cs) of
            Parsed (n, rest) \<Rightarrow> cons_token (TNumber n) (lex rest)
          | SyntaxError \<Rightarrow> SyntaxError
          | Unsupported \<Rightarrow> Unsupported)"
proof -
  have ne: "\<not> is_json_space c \<and> c \<noteq> CHR ''{'' \<and> c \<noteq> CHR ''}'' \<and> c \<noteq> CHR ''['' \<and> c \<noteq> CHR '']'' \<and>
    c \<noteq> CHR '':'' \<and> c \<noteq> CHR '','' \<and> c \<noteq> CHR 0x22"
  proof (cases "c = CHR ''-''")
    case True
    then show ?thesis by (simp add: is_json_space_def)
  next
    case False
    with assms have "is_radix_digit 10 c" by simp
    from dec_not_json_special [OF this] show ?thesis by simp
  qed
  show ?thesis
    by (subst lex.simps(2)) (simp only: ne assms if_False if_True)
qed

lemma lex_IntToString:
  assumes "boundary rest"
  shows "lex (IntToString n @ rest) = cons_token (TNumber n) (lex rest)"
proof -
  obtain c cs where cs: "IntToString n @ rest = c # cs" and st: "c = CHR ''-'' \<or> is_radix_digit 10 c"
  proof (cases "n < 0")
    case True
    then show ?thesis using that by (simp add: IntToString_def)
  next
    case False
    then have "IntToString n @ rest = hd (digits (nat n)) # (tl (digits (nat n)) @ rest)"
      by (simp add: IntToString_def digits_not_Nil)
    then show ?thesis using that hd_digits_dec by blast
  qed
  show ?thesis
    unfolding cs lex_number_start [OF st]
    using lex_number_IntToString [OF assms, of n] by (simp add: cs)
qed

lemma lex_token_text:
  assumes "\<forall>n. t = TNumber n \<longrightarrow> boundary rest"
  shows "lex (token_text t @ rest) = cons_token t (lex rest)"
proof (cases t)
  case (TString s)
  then show ?thesis
    by (simp add: QuoteJSONString_def lex.simps(2) is_json_space_def lex_string_quoted)
next
  case (TNumber n)
  with assms show ?thesis by (simp add: lex_IntToString)
qed (simp_all add: lex.simps(2) is_json_space_def is_radix_digit_def digit_value_def)

lemma untokens_simps:
  "untokens [] = []"
  "untokens (t # ts) = token_text t @ untokens ts"
  "untokens (ts @ us) = untokens ts @ untokens us"
  by (simp_all add: untokens_def)

lemma boundary_delimiter: "delimiter u \<Longrightarrow> boundary (token_text u @ cs)"
  by (cases u) (simp_all add: boundary_def)

lemma lex_untokens: "separated ts \<Longrightarrow> lex (untokens ts) = Parsed ts"
proof (induction ts rule: separated.induct)
  case 1
  show ?case by (simp add: untokens_simps)
next
  case (2 t)
  have "lex (token_text t @ []) = cons_token t (lex [])"
    by (rule lex_token_text) (simp add: boundary_def)
  then show ?case by (simp add: untokens_simps)
next
  case (3 t u ts)
  then have IH: "lex (untokens (u # ts)) = Parsed (u # ts)" by simp
  have "lex (token_text t @ untokens (u # ts)) = cons_token t (lex (untokens (u # ts)))"
  proof (rule lex_token_text, intro allI impI)
    fix n assume "t = TNumber n"
    with "3.prems" have "delimiter u" by simp
    then show "boundary (untokens (u # ts))"
      by (simp add: untokens_simps boundary_delimiter)
  qed
  with IH show ?case by (simp add: untokens_simps)
qed

lemma untokens_join:
  "untokens (join [Comma] tss) = join '','' (map untokens tss)"
  by (induction "[Comma]" tss rule: join.induct) (simp_all add: untokens_simps)

lemma JSON_stringify_tokens: "JSON_stringify v = untokens (tokens v)"
proof (induction v rule: JSON_stringify.induct)
  case (5 xs)
  have eq: "map JSON_stringify xs = map (\<lambda>x. untokens (tokens x)) xs"
    by (rule map_cong [OF refl]) (simp add: 5)
  show ?case by (simp add: untokens_simps untokens_join comp_def eq)
next
  case (6 ms)
  have eq: "map (\<lambda>m. QuoteJSONString (fst m) @ '':'' @ JSON_stringify (snd m)) ms
      = map (\<lambda>m. untokens (TString (fst m) # Colon # tokens (snd m))) ms"
    by (rule map_cong [OF refl]) (simp add: 6 untokens_simps)
  have "JSON_stringify (JObject ms)
      = ''{'' @ join '','' (map (\<lambda>m. untokens (TString (fst m) # Colon # tokens (snd m))) ms) @ ''}''"
    by (simp only: JSON_stringify.simps eq)
  also have "\<dots> = untokens (tokens (JObject ms))"
    by (simp add: untokens_simps untokens_join comp_def)
  finally show ?case .
qed (simp_all add: untokens_simps)

lemma separated_Cons: "\<not> is_number_token t \<Longrightarrow> separated (t # ts) = separated ts"
  by (cases ts) simp_all

lemma separated_append:
  "separated xs \<Longrightarrow> separated (d # ys) \<Longrightarrow> delimiter d \<Longrightarrow> separated (xs @ d # ys)"
  by (induction xs rule: separated.induct) simp_all

lemma separated_join:
  assumes "\<And>ts. ts \<in> set tss \<Longrightarrow> separated ts" "delimiter d"
  shows "separated (join [Comma] tss @ [d])"
  using assms
proof (induction "[Comma]" tss rule: join.induct)
  case 1
  show ?case by simp
next
  case (2 x)
  then show ?case by (simp add: separated_append)
next
  case (3 x y ys)
  then have "separated (join [Comma] (y # ys) @ [d])" by simp
  then have "separated (Comma # join [Comma] (y # ys) @ [d])"
    by (simp add: separated_Cons)
  with 3 show ?case by (simp add: separated_append)
qed

lemma separated_tokens: "separated (tokens v)"
proof (induction v rule: tokens.induct)
  case (5 xs)
  then have "separated (join [Comma] (map tokens xs) @ [RBracket])"
    by (intro separated_join) auto
  then show ?case by (simp add: separated_Cons)
next
  case (6 ms)
  have "separated (join [Comma] (map (\<lambda>m. TString (fst m) # Colon # tokens (snd m)) ms) @ [RBrace])"
  proof (intro separated_join)
    fix ts assume "ts \<in> set (map (\<lambda>m. TString (fst m) # Colon # tokens (snd m)) ms)"
    then obtain m where "m \<in> set ms" "ts = TString (fst m) # Colon # tokens (snd m)" by auto
    with 6 show "separated ts" by (simp add: separated_Cons)
  qed simp
  then show ?case by (simp add: separated_Cons)
qed simp_all

lemma lex_JSON_stringify: "lex (JSON_stringify v) = Parsed (tokens v)"
  by (simp add: JSON_stringify_tokens lex_untokens separated_tokens)

subsection \<open>The machine reads the tokens of a value as that value\<close>

lemma parse_tokens_Cons: "parse_tokens e stk (t # ts) = resume (step e stk t) ts"
  by (simp add: resume_def)

lemma resume_Parsed: "resume (Parsed (e, stk)) ts = parse_tokens e stk ts"
  by (simp add: resume_def)

lemma define_property_new: "k \<notin> fst ` set ms \<Longrightarrow> define_property k v ms = ms @ [(k, v)]"
  by (induction ms) auto

lemma join_Cons_Cons: "join sep (x # y # ys) = x @ sep @ join sep (y # ys)"
  by simp

lemma step_simps:
  "parse_tokens CommaOrEnd (Arr es # stk) (RBracket # ts) = resume (complete (JArray es) stk) ts"
  "parse_tokens ValueOrEnd (Arr es # stk) (RBracket # ts) = resume (complete (JArray es) stk) ts"
  "parse_tokens CommaOrEnd (Arr es # stk) (Comma # ts) = parse_tokens Value (Arr es # stk) ts"
  "parse_tokens CommaOrEnd (Obj ms # stk) (RBrace # ts) = resume (complete (JObject ms) stk) ts"
  "parse_tokens KeyOrEnd (Obj ms # stk) (RBrace # ts) = resume (complete (JObject ms) stk) ts"
  "parse_tokens CommaOrEnd (Obj ms # stk) (Comma # ts) = parse_tokens Key (Obj ms # stk) ts"
  "value_position e \<Longrightarrow> parse_tokens e stk (LBracket # ts) = parse_tokens ValueOrEnd (Arr [] # stk) ts"
  "value_position e \<Longrightarrow> parse_tokens e stk (LBrace # ts) = parse_tokens KeyOrEnd (Obj [] # stk) ts"
  by (simp_all add: resume_def)

lemma step_key:
  assumes "e = KeyOrEnd \<or> e = Key" "\<not> is_array_index k"
  shows "parse_tokens e (Obj ms # stk) (TString k # Colon # ts) = parse_tokens Value (ObjKey ms k # stk) ts"
  using assms by (auto simp: value_position_def)

lemma parse_elements:
  assumes el: "\<And>x e stk ts. x \<in> set xs \<Longrightarrow> value_position e \<Longrightarrow>
                 parse_tokens e stk (tokens x @ ts) = resume (complete x stk) ts"
    and "xs \<noteq> []" "value_position e"
  shows "parse_tokens e (Arr es # stk) (join [Comma] (map tokens xs) @ RBracket # ts)
         = resume (complete (JArray (es @ xs)) stk) ts"
  using assms
proof (induction xs arbitrary: es e)
  case Nil
  then show ?case by simp
next
  case (Cons x xs)
  have x: "parse_tokens e (Arr es # stk) (tokens x @ us) = parse_tokens CommaOrEnd (Arr (es @ [x]) # stk) us" for us
    using Cons.prems(1) [of x e "Arr es # stk" us] Cons.prems(3) by (simp add: resume_Parsed)
  show ?case
  proof (cases xs)
    case Nil
    have "parse_tokens e (Arr es # stk) (join [Comma] (map tokens (x # xs)) @ RBracket # ts)
          = parse_tokens e (Arr es # stk) (tokens x @ RBracket # ts)"
      using Nil by simp
    also have "\<dots> = parse_tokens CommaOrEnd (Arr (es @ [x]) # stk) (RBracket # ts)"
      by (rule x)
    also have "\<dots> = resume (complete (JArray (es @ x # xs)) stk) ts"
      using Nil by (simp only: step_simps)
    finally show ?thesis .
  next
    case (Cons y ys)
    have IH: "parse_tokens Value (Arr (es @ [x]) # stk) (join [Comma] (map tokens xs) @ RBracket # ts)
          = resume (complete (JArray ((es @ [x]) @ xs)) stk) ts"
      using Cons.prems(1) Cons by (intro Cons.IH) (auto simp: value_position_def)
    have "parse_tokens e (Arr es # stk) (join [Comma] (map tokens (x # xs)) @ RBracket # ts)
          = parse_tokens e (Arr es # stk) (tokens x @ Comma # join [Comma] (map tokens xs) @ RBracket # ts)"
      using Cons by simp
    also have "\<dots> = parse_tokens CommaOrEnd (Arr (es @ [x]) # stk) (Comma # join [Comma] (map tokens xs) @ RBracket # ts)"
      by (rule x)
    also have "\<dots> = parse_tokens Value (Arr (es @ [x]) # stk) (join [Comma] (map tokens xs) @ RBracket # ts)"
      by (simp only: step_simps)
    also note IH
    finally show ?thesis by simp
  qed
qed

lemma parse_members:
  assumes el: "\<And>m e stk ts. m \<in> set ms \<Longrightarrow> value_position e \<Longrightarrow>
                 parse_tokens e stk (tokens (snd m) @ ts) = resume (complete (snd m) stk) ts"
    and "ms \<noteq> []" "e = KeyOrEnd \<or> e = Key" "distinct (map fst (acc @ ms))"
    and "\<forall>m\<in>set ms. \<not> is_array_index (fst m)"
  shows "parse_tokens e (Obj acc # stk)
           (join [Comma] (map (\<lambda>m. TString (fst m) # Colon # tokens (snd m)) ms) @ RBrace # ts)
         = resume (complete (JObject (acc @ ms)) stk) ts"
  using assms
proof (induction ms arbitrary: acc e)
  case Nil
  then show ?case by simp
next
  case (Cons m ms)
  let ?member = "\<lambda>m. TString (fst m) # Colon # tokens (snd m)"
  have new: "fst m \<notin> fst ` set acc"
    using Cons.prems(4) by auto
  have key: "\<not> is_array_index (fst m)"
    using Cons.prems(5) by simp
  have m: "parse_tokens e (Obj acc # stk) (?member m @ us)
           = parse_tokens CommaOrEnd (Obj (acc @ [m]) # stk) us" for us
  proof -
    have "parse_tokens e (Obj acc # stk) (?member m @ us)
          = parse_tokens Value (ObjKey acc (fst m) # stk) (tokens (snd m) @ us)"
      using step_key [OF Cons.prems(3) key] by simp
    also have "\<dots> = resume (complete (snd m) (ObjKey acc (fst m) # stk)) us"
      by (rule Cons.prems(1)) (simp_all add: value_position_def)
    also have "\<dots> = parse_tokens CommaOrEnd (Obj (acc @ [m]) # stk) us"
      by (simp add: resume_Parsed define_property_new [OF new])
    finally show ?thesis .
  qed
  show ?case
  proof (cases ms)
    case Nil
    have "parse_tokens e (Obj acc # stk) (join [Comma] (map ?member (m # ms)) @ RBrace # ts)
          = parse_tokens e (Obj acc # stk) (?member m @ RBrace # ts)"
      using Nil by simp
    also have "\<dots> = parse_tokens CommaOrEnd (Obj (acc @ [m]) # stk) (RBrace # ts)"
      by (rule m)
    also have "\<dots> = resume (complete (JObject (acc @ m # ms)) stk) ts"
      using Nil by (simp only: step_simps)
    finally show ?thesis .
  next
    case (Cons y ys)
    have IH: "parse_tokens Key (Obj (acc @ [m]) # stk) (join [Comma] (map ?member ms) @ RBrace # ts)
          = resume (complete (JObject ((acc @ [m]) @ ms)) stk) ts"
      using Cons.prems(1,4,5) Cons by (intro Cons.IH) auto
    have "parse_tokens e (Obj acc # stk) (join [Comma] (map ?member (m # ms)) @ RBrace # ts)
          = parse_tokens e (Obj acc # stk) (?member m @ Comma # join [Comma] (map ?member ms) @ RBrace # ts)"
      using Cons by simp
    also have "\<dots> = parse_tokens CommaOrEnd (Obj (acc @ [m]) # stk) (Comma # join [Comma] (map ?member ms) @ RBrace # ts)"
      by (rule m)
    also have "\<dots> = parse_tokens Key (Obj (acc @ [m]) # stk) (join [Comma] (map ?member ms) @ RBrace # ts)"
      by (simp only: step_simps)
    also note IH
    finally show ?thesis by simp
  qed
qed

lemma parse_tokens_value:
  "wf_json v \<Longrightarrow> value_position e \<Longrightarrow>
   parse_tokens e stk (tokens v @ ts) = resume (complete v stk) ts"
proof (induction v arbitrary: e stk ts rule: tokens.induct)
  case (5 xs)
  have start: "parse_tokens e stk (tokens (JArray xs) @ ts)
        = parse_tokens ValueOrEnd (Arr [] # stk) (join [Comma] (map tokens xs) @ RBracket # ts)"
    using "5.prems"(2) by (simp add: step_simps del: parse_tokens.simps)
  show ?case
  proof (cases xs)
    case Nil
    then show ?thesis
      unfolding start by (simp add: step_simps del: parse_tokens.simps)
  next
    case (Cons y ys)
    have "parse_tokens ValueOrEnd (Arr [] # stk) (join [Comma] (map tokens xs) @ RBracket # ts)
          = resume (complete (JArray ([] @ xs)) stk) ts"
    proof (rule parse_elements)
      fix x e stk ts assume "x \<in> set xs" "value_position e"
      with "5.prems"(1) show "parse_tokens e stk (tokens x @ ts) = resume (complete x stk) ts"
        by (intro "5.IH") (auto simp: list_all_iff)
    qed (simp_all add: Cons value_position_def)
    then show ?thesis
      unfolding start by simp
  qed
next
  case (6 ms)
  let ?member = "\<lambda>m. TString (fst m) # Colon # tokens (snd m)"
  have start: "parse_tokens e stk (tokens (JObject ms) @ ts)
        = parse_tokens KeyOrEnd (Obj [] # stk) (join [Comma] (map ?member ms) @ RBrace # ts)"
    using "6.prems"(2) by (simp add: step_simps del: parse_tokens.simps)
  show ?case
  proof (cases ms)
    case Nil
    then show ?thesis
      unfolding start by (simp add: step_simps del: parse_tokens.simps)
  next
    case (Cons y ys)
    have "parse_tokens KeyOrEnd (Obj [] # stk) (join [Comma] (map ?member ms) @ RBrace # ts)
          = resume (complete (JObject ([] @ ms)) stk) ts"
    proof (rule parse_members)
      fix m e stk ts assume "m \<in> set ms" "value_position e"
      with "6.prems"(1) show "parse_tokens e stk (tokens (snd m) @ ts) = resume (complete (snd m) stk) ts"
        by (intro "6.IH") (auto simp: list_all_iff)
    qed (use "6.prems"(1) in \<open>simp_all add: Cons list_all_iff\<close>)
    then show ?thesis
      unfolding start by simp
  qed
qed (simp_all add: resume_def)

lemma JSON_parse_stringify: "wf_json v \<Longrightarrow> JSON_parse (JSON_stringify v) = Parsed v"
  using parse_tokens_value [of v Value "[]" "[]"]
  by (simp add: JSON_parse_def lex_JSON_stringify value_position_def resume_def)

subsection \<open>The machine returns values that it reads back\<close>

lemma define_property_keys: "fst ` set (define_property k v ms) = insert k (fst ` set ms)"
  by (induction ms) auto

lemma define_property_distinct:
  "distinct (map fst ms) \<Longrightarrow> distinct (map fst (define_property k v ms))"
proof (induction ms)
  case Nil
  show ?case by simp
next
  case (Cons m ms)
  show ?case
  proof (cases "fst m = k")
    case True
    with Cons.prems show ?thesis by simp
  next
    case False
    with Cons have "distinct (map fst (define_property k v ms))" by simp
    moreover have "fst m \<notin> fst ` set (define_property k v ms)"
      using Cons.prems False by (simp add: define_property_keys)
    ultimately show ?thesis using False by simp
  qed
qed

lemma define_property_all:
  "list_all P ms \<Longrightarrow> P (k, v) \<Longrightarrow> list_all P (define_property k v ms)"
  by (induction ms) auto

lemma wf_define_property:
  assumes "wf_json (JObject ms)" "\<not> is_array_index k" "wf_json v"
  shows "wf_json (JObject (define_property k v ms))"
  using assms by (simp add: define_property_distinct define_property_all)

lemma complete_ok:
  assumes "complete v stk = Parsed (e', stk')" "wf_json v" "list_all frame_ok stk"
  shows "expect_ok e' \<and> list_all frame_ok stk'"
proof (cases "(v, stk)" rule: complete.cases)
  case (1 v')
  with assms show ?thesis by auto
next
  case (2 v' es stk0)
  with assms show ?thesis by auto
next
  case (3 v' ms k stk0)
  with assms have "wf_json (JObject (define_property k v ms))"
    by (intro wf_define_property) auto
  with 3 assms show ?thesis by auto
next
  case (4 v' ms stk0)
  with assms show ?thesis by simp
qed

lemma step_ok:
  assumes "step e stk t = Parsed (e', stk')" "list_all frame_ok stk"
  shows "expect_ok e' \<and> list_all frame_ok stk'"
proof (cases t)
  case LBrace
  with assms show ?thesis by (auto split: if_splits)
next
  case RBrace
  with assms obtain ms stk0 where "stk = Obj ms # stk0" "complete (JObject ms) stk0 = Parsed (e', stk')"
    by (auto split: if_splits list.splits frame.splits)
  with assms(2) show ?thesis by (intro complete_ok [of "JObject ms" stk0]) auto
next
  case LBracket
  with assms show ?thesis by (auto split: if_splits)
next
  case RBracket
  with assms obtain es stk0 where "stk = Arr es # stk0" "complete (JArray es) stk0 = Parsed (e', stk')"
    by (auto split: if_splits list.splits frame.splits)
  with assms(2) show ?thesis by (intro complete_ok [of "JArray es" stk0]) auto
next
  case Colon
  with assms show ?thesis by (auto split: if_splits)
next
  case Comma
  with assms show ?thesis by (auto split: if_splits list.splits frame.splits)
next
  case (TString s)
  show ?thesis
  proof (cases "value_position e")
    case True
    with assms TString show ?thesis by (intro complete_ok [of "JString s" stk]) auto
  next
    case False
    with assms TString show ?thesis by (auto split: if_splits list.splits frame.splits)
  qed
next
  case (TNumber n)
  with assms show ?thesis by (intro complete_ok [of "JNumber n" stk]) (auto split: if_splits)
next
  case TTrue
  with assms show ?thesis by (intro complete_ok [of "JBool True" stk]) (auto split: if_splits)
next
  case TFalse
  with assms show ?thesis by (intro complete_ok [of "JBool False" stk]) (auto split: if_splits)
next
  case TNull
  with assms show ?thesis by (intro complete_ok [of JNull stk]) (auto split: if_splits)
qed

lemma parse_tokens_wf:
  "parse_tokens e stk ts = Parsed v \<Longrightarrow> expect_ok e \<Longrightarrow> list_all frame_ok stk \<Longrightarrow> wf_json v"
proof (induction ts arbitrary: e stk)
  case Nil
  then show ?case by (cases e) simp_all
next
  case (Cons t ts)
  from Cons.prems(1) obtain e' stk' where s: "step e stk t = Parsed (e', stk')"
    and p: "parse_tokens e' stk' ts = Parsed v"
    by (auto split: parsed.splits)
  from step_ok [OF s Cons.prems(3)] p show ?case
    by (intro Cons.IH [of e' stk']) auto
qed

lemma JSON_parse_wf: "JSON_parse txt = Parsed v \<Longrightarrow> wf_json v"
  by (auto simp: JSON_parse_def split: parsed.splits dest: parse_tokens_wf)

subsection \<open>Cart documents\<close>

lemma not_array_index_keys:
  "\<not> is_array_index ''items''" "\<not> is_array_index ''id''" "\<not> is_array_index ''title''"
  "\<not> is_array_index ''price''" "\<not> is_array_index ''image''" "\<not> is_array_index ''quantity''"
  by (simp_all add: is_array_index_def is_radix_digit_def digit_value_def)

lemma wf_primitive_json: "wf_json (primitive_json p)"
  by (cases p rule: primitive_json.cases) simp_all

lemma wf_item_json: "wf_json (item_json item)"
  by (simp add: item_json_def not_array_index_keys wf_primitive_json)

lemma wf_cart_json: "wf_json (cart_json its)"
  by (simp add: cart_json_def not_array_index_keys list_all_iff wf_item_json)

lemma LineItem_of_item_json: "storable item \<Longrightarrow> LineItem_of (item_json item) = Some item"
proof -
  assume s: "storable item"
  then obtain q where q: "quantity item = Num q"
    by (cases "quantity item") (simp_all add: storable_def)
  from s have i: "json_primitive (primitive_json (id' item)) = Some (id' item)"
    by (cases "id' item" rule: primitive_json.cases) (simp_all add: storable_def)
  show ?thesis
    by (simp add: LineItem_of_def item_json_def i q)
qed

lemma those_map_Some: "those (map Some xs) = Some xs"
  by (induction xs) simp_all

lemma items_of_cart_json: "list_all storable its \<Longrightarrow> items_of (cart_json its) = Some its"
proof -
  assume "list_all storable its"
  then have "map LineItem_of (map item_json its) = map Some its"
    by (simp add: list_all_iff LineItem_of_item_json)
  then show ?thesis
    by (simp add: items_of_def cart_json_def those_map_Some del: map_map)
qed

lemma items_of_truthy: "items_of v = Some its \<Longrightarrow> truthy v"
  by (cases v) (simp_all add: items_of_def)

lemma getCartFromLocalStorage_stored:
  "localStorage st = Some stored \<Longrightarrow> JSON_parse stored = Parsed v \<Longrightarrow> truthy v \<Longrightarrow>
   getCartFromLocalStorage st = Parsed v"
  by (simp add: getCartFromLocalStorage_def)

lemma renderCartItems_fields:
  "items (renderCartItems st) = items st"
  "requests (renderCartItems st) = requests st"
  "localStorage (renderCartItems st) = localStorage st"
  "itemToRemove (renderCartItems st) = itemToRemove st"
  by (simp_all add: renderCartItems_def calculateTotals_fields)

lemma catch_error_fields:
  "cartItemsContainer (catch_error st) = Html ''<p>Error loading cart. Please try again later.</p>''"
  "items (catch_error st) = items st"
  "subtotal (catch_error st) = subtotal st"
  "localStorage (catch_error st) = localStorage st"
  "requests (catch_error st) = requests st"
  "itemToRemove (catch_error st) = itemToRemove st"
  by (simp_all add: catch_error_def)

lemma JSON_parse_examples:
  "JSON_parse ''{'' = SyntaxError"
  "JSON_parse ''null'' = Parsed JNull"
  "JSON_parse ''<html>'' = SyntaxError"
  "JSON_parse ''[]'' = Parsed (JArray [])"
  "JSON_parse ''false'' = Parsed (JBool False)"
  by (simp_all add: JSON_parse_def lex.simps is_json_space_def is_radix_digit_def digit_value_def
      value_position_def)

section \<open>The store\<close>

text \<open>
  Claim C3. Saving and then loading is a round trip. \<open>getCartFromLocalStorage\<close> after
  \<open>saveCartToLocalStorage\<close> returns the value that was saved: a parsed document, as
  \<open>fetchCartItems\<close> saves it, or the object \<^verbatim>\<open>{ items: this.items }\<close>, as the two
  handlers save it; and for line items that a document can hold, what is loaded reads as
  the same sequence of line items, field by field.
\<close>

theorem save_then_load:
  "(JSON_parse doc = Parsed v \<and> truthy v \<longrightarrow>
      getCartFromLocalStorage (saveCartToLocalStorage v st) = Parsed v) \<and>
   (list_all storable its \<longrightarrow>
      getCartFromLocalStorage (saveCartToLocalStorage (cart_json its) st) = Parsed (cart_json its) \<and>
      items_of (cart_json its) = Some its)"
proof -
  have gen: "getCartFromLocalStorage (saveCartToLocalStorage v st) = Parsed v"
    if "wf_json v" "truthy v" for v
    using that
    by (simp add: getCartFromLocalStorage_stored [where stored = "JSON_stringify v"]
        saveCartToLocalStorage_fields JSON_parse_stringify)
  have "truthy (cart_json its)"
    by (simp add: cart_json_def)
  with gen [OF wf_cart_json] gen JSON_parse_wf [of doc v] show ?thesis
    by (auto simp: items_of_cart_json)
qed

theorem save_then_load_witness:
  "JSON_parse ''[7]'' = Parsed (JArray [JNumber 7]) \<and> truthy (JArray [JNumber 7]) \<and>
   getCartFromLocalStorage (saveCartToLocalStorage (JArray [JNumber 7]) blank_page)
     = Parsed (JArray [JNumber 7]) \<and>
   list_all storable [shirt, mug] \<and>
   getCartFromLocalStorage (saveCartToLocalStorage (cart_json [shirt, mug]) blank_page)
     = Parsed (cart_json [shirt, mug]) \<and>
   items_of (cart_json [shirt, mug]) = Some [shirt, mug]"
proof -
  have p: "JSON_parse ''[7]'' = Parsed (JArray [JNumber 7])"
    by (simp add: JSON_parse_def lex.simps is_json_space_def is_radix_digit_def digit_value_def
        value_position_def lex_number_def radix_value_def)
  from save_then_load [of "''[7]''" "JArray [JNumber 7]" blank_page "[shirt, mug]"] p
  show ?thesis
    by (simp add: storable_def shirt_def mug_def)
qed

section \<open>Loading\<close>

lemma items_of_is_array: "items_of v = Some its \<Longrightarrow> is_array (property ''items'' v)"
  by (auto simp: items_of_def split: option.splits json.splits)

lemma getCartFromLocalStorage_falsy:
  "localStorage st = Some stored \<Longrightarrow> JSON_parse stored = Parsed v \<Longrightarrow> \<not> truthy v \<Longrightarrow>
   getCartFromLocalStorage st = Parsed JNull"
  by (simp add: getCartFromLocalStorage_def)

lemma getCartFromLocalStorage_empty: "getCartFromLocalStorage (st\<lparr>localStorage := None\<rparr>) = Parsed JNull"
  by (simp add: getCartFromLocalStorage_def JSON_parse_examples)

text \<open>With a value from the store, \<open>fetchCartItems\<close> makes no request and writes nothing.\<close>

lemma fetchCartItems_cached:
  assumes "getCartFromLocalStorage st = Parsed v" "truthy v" "fetchCartItems remote st = Some page"
  shows "requests (page_of page) = requests st" "localStorage (page_of page) = localStorage st"
  using assms
  by (auto simp: fetchCartItems_def renderCartItems_fields catch_error_fields
      split: if_splits option.splits)

text \<open>Without one, the request is made, whatever comes of it.\<close>

lemma fetchCartItems_miss:
  assumes "getCartFromLocalStorage st = Parsed JNull" "fetchCartItems remote st = Some page"
  shows "requests (page_of page) = requests st @ [API_URL]"
  using assms
  by (auto simp: fetchCartItems_def Let_def renderCartItems_fields catch_error_fields
      saveCartToLocalStorage_fields
      split: if_splits option.splits response.splits parsed.splits)

text \<open>
  Claim C2. When the store holds a text that parses to a cart, \<open>fetchCartItems\<close> takes
  the items of that cart as they are, renders them, makes no request and leaves the
  store as it is, whatever the network would answer.
\<close>

theorem cache_first:
  assumes "localStorage st = Some stored" "JSON_parse stored = Parsed v" "items_of v = Some its"
  shows "fetchCartItems remote st = Some (Cart (renderCartItems (st\<lparr>items := its\<rparr>))) \<and>
         items (renderCartItems (st\<lparr>items := its\<rparr>)) = its \<and>
         requests (renderCartItems (st\<lparr>items := its\<rparr>)) = requests st \<and>
         localStorage (renderCartItems (st\<lparr>items := its\<rparr>)) = localStorage st"
proof -
  have t: "truthy v" using assms(3) by (rule items_of_truthy)
  have "getCartFromLocalStorage st = Parsed v"
    using assms(1,2) t by (rule getCartFromLocalStorage_stored)
  then show ?thesis
    by (simp add: fetchCartItems_def t assms(3) items_of_is_array [OF assms(3)] renderCartItems_fields)
qed

theorem cache_first_witness:
  "localStorage stored_page = Some (JSON_stringify (cart_json [shirt, mug])) \<and>
   JSON_parse (JSON_stringify (cart_json [shirt, mug])) = Parsed (cart_json [shirt, mug]) \<and>
   items_of (cart_json [shirt, mug]) = Some [shirt, mug] \<and>
   fetchCartItems (Body ''[]'') stored_page
     = Some (Cart (renderCartItems (stored_page\<lparr>items := [shirt, mug]\<rparr>))) \<and>
   requests (renderCartItems (stored_page\<lparr>items := [shirt, mug]\<rparr>)) = []"
proof -
  have a: "localStorage stored_page = Some (JSON_stringify (cart_json [shirt, mug]))"
    by (simp add: stored_page_def)
  have b: "JSON_parse (JSON_stringify (cart_json [shirt, mug])) = Parsed (cart_json [shirt, mug])"
    by (rule JSON_parse_stringify) (rule wf_cart_json)
  have c: "items_of (cart_json [shirt, mug]) = Some [shirt, mug]"
    by (rule items_of_cart_json) (simp add: storable_def shirt_def mug_def)
  have d: "requests stored_page = []"
    by (simp add: stored_page_def blank_page_def)
  from cache_first [OF a b c, of "Body ''[]''"] a b c d show ?thesis by simp
qed

text \<open>
  Claim C4, as amended. What \<open>fetchCartItems\<close> does with a stored text that is no cart
  depends on the text. A text that is no JSON text makes \<open>getCartFromLocalStorage\<close>
  throw instead of returning an empty result; \<open>fetchCartItems\<close> catches the exception:
  the container shows the error message, no request is made, and the items and the store
  stay as they were. A JSON text with a truthy value is returned by the loader as that
  value: the branch of line 166 is taken, no request is made and nothing is written; and
  when the value has no array under \<^verbatim>\<open>items\<close>, that non-array is assigned to
  \<^verbatim>\<open>this.items\<close>, the rendering throws, and the container shows the error message. Only
  a JSON text with a falsy value is treated as nothing stored: the loader returns
  \<^verbatim>\<open>null\<close>, as it does on an empty store, and the request is made.
\<close>

theorem unparsable_store:
  assumes "localStorage st = Some stored"
  shows "(JSON_parse stored = SyntaxError \<longrightarrow>
            getCartFromLocalStorage st = SyntaxError \<and>
            fetchCartItems remote st = Some (Cart (catch_error st)) \<and>
            cartItemsContainer (catch_error st) = Html ''<p>Error loading cart. Please try again later.</p>'' \<and>
            requests (catch_error st) = requests st \<and>
            items (catch_error st) = items st \<and>
            localStorage (catch_error st) = localStorage st) \<and>
         (JSON_parse stored = Parsed v \<and> truthy v \<longrightarrow>
            getCartFromLocalStorage st = Parsed v \<and>
            (\<forall>page. fetchCartItems remote st = Some page \<longrightarrow>
               requests (page_of page) = requests st \<and> localStorage (page_of page) = localStorage st) \<and>
            (\<not> is_array (property ''items'' v) \<longrightarrow>
               fetchCartItems remote st = Some (NoCart (property ''items'' v) (catch_error st)))) \<and>
         (JSON_parse stored = Parsed v \<and> \<not> truthy v \<longrightarrow>
            getCartFromLocalStorage st = Parsed JNull \<and>
            getCartFromLocalStorage (st\<lparr>localStorage := None\<rparr>) = Parsed JNull \<and>
            (\<forall>page. fetchCartItems remote st = Some page \<longrightarrow>
               requests (page_of page) = requests st @ [API_URL]) \<and>
            fetchCartItems NetworkError st
              = Some (Cart (catch_error (st\<lparr>requests := requests st @ [API_URL]\<rparr>))))"
proof (intro conjI impI)
  assume "JSON_parse stored = SyntaxError"
  then show g: "getCartFromLocalStorage st = SyntaxError"
    using assms by (simp add: getCartFromLocalStorage_def)
  then show "fetchCartItems remote st = Some (Cart (catch_error st))"
    by (simp add: fetchCartItems_def)
next
  assume "JSON_parse stored = Parsed v \<and> truthy v"
  then have p: "JSON_parse stored = Parsed v" and t: "truthy v" by simp_all
  show g: "getCartFromLocalStorage st = Parsed v"
    using assms p t by (rule getCartFromLocalStorage_stored)
  show "\<forall>page. fetchCartItems remote st = Some page \<longrightarrow>
      requests (page_of page) = requests st \<and> localStorage (page_of page) = localStorage st"
    using fetchCartItems_cached [OF g t] by blast
  assume "\<not> is_array (property ''items'' v)"
  then show "fetchCartItems remote st = Some (NoCart (property ''items'' v) (catch_error st))"
    by (simp add: fetchCartItems_def g t)
next
  assume "JSON_parse stored = Parsed v \<and> \<not> truthy v"
  then have p: "JSON_parse stored = Parsed v" and f: "\<not> truthy v" by simp_all
  show g: "getCartFromLocalStorage st = Parsed JNull"
    using assms p f by (rule getCartFromLocalStorage_falsy)
  show "getCartFromLocalStorage (st\<lparr>localStorage := None\<rparr>) = Parsed JNull"
    by (rule getCartFromLocalStorage_empty)
  show "\<forall>page. fetchCartItems remote st = Some page \<longrightarrow>
      requests (page_of page) = requests st @ [API_URL]"
    using fetchCartItems_miss [OF g] by blast
  show "fetchCartItems NetworkError st
      = Some (Cart (catch_error (st\<lparr>requests := requests st @ [API_URL]\<rparr>)))"
    by (simp add: fetchCartItems_def g Let_def)
qed (simp_all add: catch_error_fields)

theorem unparsable_store_witness:
  "localStorage broken_page = Some ''{'' \<and> JSON_parse ''{'' = SyntaxError \<and>
   getCartFromLocalStorage broken_page = SyntaxError \<and>
   fetchCartItems NetworkError broken_page = Some (Cart (catch_error broken_page)) \<and>
   requests (catch_error broken_page) = [] \<and>
   localStorage array_page = Some ''[]'' \<and> JSON_parse ''[]'' = Parsed (JArray []) \<and>
   truthy (JArray []) \<and> \<not> is_array (property ''items'' (JArray [])) \<and>
   getCartFromLocalStorage array_page = Parsed (JArray []) \<and>
   fetchCartItems NetworkError array_page = Some (NoCart None (catch_error array_page)) \<and>
   requests (catch_error array_page) = [] \<and>
   localStorage false_page = Some ''false'' \<and> JSON_parse ''false'' = Parsed (JBool False) \<and>
   \<not> truthy (JBool False) \<and>
   getCartFromLocalStorage false_page = Parsed JNull \<and>
   fetchCartItems NetworkError false_page
     = Some (Cart (catch_error (false_page\<lparr>requests := [API_URL]\<rparr>)))"
proof -
  have a: "localStorage broken_page = Some ''{''" "localStorage array_page = Some ''[]''"
    "localStorage false_page = Some ''false''"
    by (simp_all add: broken_page_def array_page_def false_page_def)
  have r: "requests broken_page = []" "requests array_page = []" "requests false_page = []"
    by (simp_all add: broken_page_def array_page_def false_page_def blank_page_def)
  from unparsable_store [OF a(1), where remote = NetworkError]
    unparsable_store [OF a(2), where v = "JArray []" and remote = NetworkError]
    unparsable_store [OF a(3), where v = "JBool False" and remote = NetworkError]
    a r JSON_parse_examples
  show ?thesis by (simp add: catch_error_fields)
qed

text \<open>
  The claim as stated, that a stored text which is no cart is treated as nothing stored,
  fails: with the text \<^verbatim>\<open>{\<close> in the store the loader throws, with the text \<^verbatim>\<open>[]\<close>
  it returns the empty array, and in both cases the error message is shown and no request
  is made; with an empty store the loader returns \<^verbatim>\<open>null\<close> and the remote cart is
  requested.
\<close>

theorem unparsable_store_is_no_miss:
  "getCartFromLocalStorage broken_page = SyntaxError \<and>
   fetchCartItems NetworkError broken_page = Some (Cart (catch_error broken_page)) \<and>
   requests (catch_error broken_page) = [] \<and>
   getCartFromLocalStorage array_page = Parsed (JArray []) \<and>
   fetchCartItems NetworkError array_page = Some (NoCart None (catch_error array_page)) \<and>
   requests (catch_error array_page) = [] \<and>
   getCartFromLocalStorage blank_page = Parsed JNull \<and>
   fetchCartItems NetworkError blank_page
     = Some (Cart (catch_error (blank_page\<lparr>requests := [API_URL]\<rparr>)))"
  by (simp add: getCartFromLocalStorage_def fetchCartItems_def broken_page_def array_page_def
      blank_page_def JSON_parse_examples catch_error_def)

text \<open>
  Claim C7. When nothing usable is stored and the request fails, or the body of the
  response is no JSON text, \<open>fetchCartItems\<close> ends with the error message in the
  container, the items as they were (empty after the constructor) and the store as it
  was; the one request was made.
\<close>

theorem load_failure:
  assumes "getCartFromLocalStorage st = Parsed JNull"
    and "remote = NetworkError \<or> (\<exists>b. remote = Body b \<and> JSON_parse b = SyntaxError)"
  shows "fetchCartItems remote st = Some (Cart (catch_error (st\<lparr>requests := requests st @ [API_URL]\<rparr>))) \<and>
         cartItemsContainer (catch_error (st\<lparr>requests := requests st @ [API_URL]\<rparr>))
           = Html ''<p>Error loading cart. Please try again later.</p>'' \<and>
         items (catch_error (st\<lparr>requests := requests st @ [API_URL]\<rparr>)) = items st \<and>
         localStorage (catch_error (st\<lparr>requests := requests st @ [API_URL]\<rparr>)) = localStorage st"
  using assms by (auto simp: fetchCartItems_def Let_def catch_error_fields)

theorem load_failure_witness:
  "getCartFromLocalStorage (new_CartManager blank_page) = Parsed JNull \<and>
   fetchCartItems NetworkError (new_CartManager blank_page)
     = Some (Cart (catch_error ((new_CartManager blank_page)\<lparr>requests := [API_URL]\<rparr>))) \<and>
   JSON_parse ''<html>'' = SyntaxError \<and>
   fetchCartItems (Body ''<html>'') (new_CartManager blank_page)
     = Some (Cart (catch_error ((new_CartManager blank_page)\<lparr>requests := [API_URL]\<rparr>))) \<and>
   items (catch_error ((new_CartManager blank_page)\<lparr>requests := [API_URL]\<rparr>)) = [] \<and>
   localStorage (catch_error ((new_CartManager blank_page)\<lparr>requests := [API_URL]\<rparr>)) = None"
proof -
  have m: "getCartFromLocalStorage (new_CartManager blank_page) = Parsed JNull"
    by (simp add: getCartFromLocalStorage_def new_CartManager_def blank_page_def JSON_parse_examples)
  have r: "requests (new_CartManager blank_page) = []" "items (new_CartManager blank_page) = []"
    "localStorage (new_CartManager blank_page) = None"
    by (simp_all add: new_CartManager_def blank_page_def)
  from load_failure [OF m, of NetworkError] load_failure [OF m, of "Body ''<html>''"]
    m r JSON_parse_examples(3)
  show ?thesis by simp
qed

section \<open>The removal dialogue\<close>

lemma calculateTotals_again:
  "calculateTotals (closeRemoveModal st) = closeRemoveModal (calculateTotals st)"
  "calculateTotals (saveCartToLocalStorage c st) = saveCartToLocalStorage c (calculateTotals st)"
  "calculateTotals (calculateTotals st) = calculateTotals st"
  by (simp_all add: calculateTotals_def closeRemoveModal_def saveCartToLocalStorage_def Let_def)

lemma confirmRemoveItem_totals:
  "itemToRemove st = Some pending \<Longrightarrow> calculateTotals (confirmRemoveItem st) = confirmRemoveItem st"
  by (simp add: confirmRemoveItem_pending calculateTotals_again)

lemma removeItem_storable: "list_all storable its \<Longrightarrow> list_all storable (removeItem its itemId)"
  by (simp add: removeItem_def list_all_iff)

lemma stored_cart_loads:
  assumes "list_all storable its" "localStorage st = Some (JSON_stringify (cart_json its))"
  shows "\<exists>v. getCartFromLocalStorage st = Parsed v \<and> items_of v = Some its"
proof -
  have "getCartFromLocalStorage st = Parsed (cart_json its)"
    using assms(2)
  proof (rule getCartFromLocalStorage_stored)
    show "JSON_parse (JSON_stringify (cart_json its)) = Parsed (cart_json its)"
      by (rule JSON_parse_stringify) (rule wf_cart_json)
    show "truthy (cart_json its)"
      by (simp add: cart_json_def)
  qed
  with items_of_cart_json [OF assms(1)] show ?thesis by blast
qed

text \<open>
  Claim C8, as amended. With a pending removal: \<open>closeRemoveModal\<close> clears it and hides
  the modal, and the items, the aggregates, the rows and the stored text stay.
  \<open>confirmRemoveItem\<close> applies the filter of line 300 for the text that the pending
  row carries: when that is the text of a safe integer \<open>n\<close>, exactly the items with the
  identifier \<open>n\<close> go; an item identified by a string always stays. It detaches the row,
  leaves the aggregates that \<open>calculateTotals\<close> computes from the remaining items
  (their integer sums, where all numbers involved are safe integers), stores the remaining
  items (where none of them holds \<^verbatim>\<open>NaN\<close>, the loader reads them back from the store),
  clears the pending removal and hides the modal. Both end with no pending removal.
\<close>

theorem removal_transitions:
  assumes "itemToRemove st = Some pending"
  shows "itemToRemove (closeRemoveModal st) = None \<and>
         removeModal (closeRemoveModal st) = ''none'' \<and>
         items (closeRemoveModal st) = items st \<and>
         subtotal (closeRemoveModal st) = subtotal st \<and>
         cartCountElement (closeRemoveModal st) = cartCountElement st \<and>
         cartItemsContainer (closeRemoveModal st) = cartItemsContainer st \<and>
         localStorage (closeRemoveModal st) = localStorage st \<and>
         items (confirmRemoveItem st) = removeItem (items st) (data_id pending) \<and>
         (\<forall>n. safe_integer n \<and> data_id pending = ToString (NumV (Num n)) \<longrightarrow>
              items (confirmRemoveItem st) = filter (\<lambda>item. id' item \<noteq> NumV (Num n)) (items st)) \<and>
         (\<forall>item\<in>set (items st). (\<exists>s. id' item = StrV s) \<longrightarrow> item \<in> set (items (confirmRemoveItem st))) \<and>
         cartItemsContainer (confirmRemoveItem st) = cartItemsContainer (remove_row (node pending) st) \<and>
         calculateTotals (confirmRemoveItem st) = confirmRemoveItem st \<and>
         (\<forall>qs. map quantity (items (confirmRemoveItem st)) = map Num qs \<and>
               list_all safe_integer (map price (items (confirmRemoveItem st))) \<and>
               safe_sum 0 (map (\<lambda>(item, q). price item * q) (zip (items (confirmRemoveItem st)) qs)) \<and>
               safe_sum 0 qs \<longrightarrow>
               subtotal (confirmRemoveItem st)
                 = Num (\<Sum>(item, q)\<leftarrow>zip (items (confirmRemoveItem st)) qs. price item * q) \<and>
               cartCountElement (confirmRemoveItem st) = Plain (IntToString (sum_list qs))) \<and>
         (list_all storable (items st) \<longrightarrow>
            (\<exists>v. getCartFromLocalStorage (confirmRemoveItem st) = Parsed v \<and>
                 items_of v = Some (items (confirmRemoveItem st)))) \<and>
         itemToRemove (confirmRemoveItem st) = None \<and>
         removeModal (confirmRemoveItem st) = ''none''"
proof -
  note e = confirmRemoveItem_effects [OF assms]
  note t = confirmRemoveItem_totals [OF assms]
  have a: "\<forall>n. safe_integer n \<and> data_id pending = ToString (NumV (Num n)) \<longrightarrow>
      items (confirmRemoveItem st) = filter (\<lambda>item. id' item \<noteq> NumV (Num n)) (items st)"
    by (simp add: e(1) removeItem_IntToString)
  have b: "\<forall>item\<in>set (items st). (\<exists>s. id' item = StrV s) \<longrightarrow> item \<in> set (items (confirmRemoveItem st))"
    unfolding e(1) using removeItem_keeps_strings by blast
  have c: "\<forall>qs. map quantity (items (confirmRemoveItem st)) = map Num qs \<and>
               list_all safe_integer (map price (items (confirmRemoveItem st))) \<and>
               safe_sum 0 (map (\<lambda>(item, q). price item * q) (zip (items (confirmRemoveItem st)) qs)) \<and>
               safe_sum 0 qs \<longrightarrow>
               subtotal (confirmRemoveItem st)
                 = Num (\<Sum>(item, q)\<leftarrow>zip (items (confirmRemoveItem st)) qs. price item * q) \<and>
               cartCountElement (confirmRemoveItem st) = Plain (IntToString (sum_list qs))"
  proof (intro allI impI)
    fix qs
    assume "map quantity (items (confirmRemoveItem st)) = map Num qs \<and>
               list_all safe_integer (map price (items (confirmRemoveItem st))) \<and>
               safe_sum 0 (map (\<lambda>(item, q). price item * q) (zip (items (confirmRemoveItem st)) qs)) \<and>
               safe_sum 0 qs"
    then have q: "map quantity (items (confirmRemoveItem st)) = map Num qs" by simp
    from calculateTotals_integers(1,4) [OF q]
    show "subtotal (confirmRemoveItem st)
                 = Num (\<Sum>(item, q)\<leftarrow>zip (items (confirmRemoveItem st)) qs. price item * q) \<and>
               cartCountElement (confirmRemoveItem st) = Plain (IntToString (sum_list qs))"
      by (simp only: t simp_thms)
  qed
  have d: "list_all storable (items st) \<longrightarrow>
            (\<exists>v. getCartFromLocalStorage (confirmRemoveItem st) = Parsed v \<and>
                 items_of v = Some (items (confirmRemoveItem st)))"
  proof
    assume "list_all storable (items st)"
    then have "list_all storable (removeItem (items st) (data_id pending))"
      by (rule removeItem_storable)
    from stored_cart_loads [OF this e(5)] show
      "\<exists>v. getCartFromLocalStorage (confirmRemoveItem st) = Parsed v \<and>
           items_of v = Some (items (confirmRemoveItem st))"
      by (simp only: e(1))
  qed
  from a b c d show ?thesis
    by (simp only: e(1,2,6,7) t closeRemoveModal_fields simp_thms)
qed

theorem removal_transitions_witness:
  "itemToRemove (remove_click 0 loaded_page) = Some (createCartItemHTML 0 shirt) \<and>
   items (closeRemoveModal (remove_click 0 loaded_page)) = [shirt, mug] \<and>
   itemToRemove (closeRemoveModal (remove_click 0 loaded_page)) = None \<and>
   safe_integer 1 \<and> data_id (createCartItemHTML 0 shirt) = ToString (NumV (Num 1)) \<and>
   items (confirmRemoveItem (remove_click 0 loaded_page)) = [mug] \<and>
   cartItemsContainer (confirmRemoveItem (remove_click 0 loaded_page)) = Rows [createCartItemHTML (Suc 0) mug] \<and>
   subtotal (confirmRemoveItem (remove_click 0 loaded_page)) = Num 250 \<and>
   cartCountElement (confirmRemoveItem (remove_click 0 loaded_page)) = Plain ''1'' \<and>
   list_all storable (items (remove_click 0 loaded_page)) \<and>
   (\<exists>v. getCartFromLocalStorage (confirmRemoveItem (remove_click 0 loaded_page)) = Parsed v \<and>
        items_of v = Some [mug]) \<and>
   itemToRemove (confirmRemoveItem (remove_click 0 loaded_page)) = None"
proof -
  have h: "itemToRemove (remove_click 0 loaded_page) = Some (createCartItemHTML 0 shirt)"
    by (simp add: remove_click_loaded)
  have its: "items (remove_click 0 loaded_page) = [shirt, mug]"
    by (simp add: remove_click_loaded loaded_page_fields)
  have d: "data_id (createCartItemHTML 0 shirt) = ToString (NumV (Num 1))"
    by (simp add: createCartItemHTML_def shirt_def)
  have rows: "cartItemsContainer (remove_row (node (createCartItemHTML 0 shirt)) (remove_click 0 loaded_page))
      = Rows [createCartItemHTML (Suc 0) mug]"
    by (simp add: remove_row_def remove_click_loaded loaded_page_fields createCartItemHTML_def)
  have s: "safe_integer 1" "list_all storable [shirt, mug]"
    by (simp_all add: safe_integer_def storable_def shirt_def mug_def)
  have rm: "removeItem [shirt, mug] (data_id (createCartItemHTML 0 shirt)) = [mug]"
    by (simp add: removeItem_def createCartItemHTML_def shirt_def mug_def parseInt_IntToString)
  let ?cancelled = "closeRemoveModal (remove_click 0 loaded_page)"
  let ?confirmed = "confirmRemoveItem (remove_click 0 loaded_page)"
  note r = removal_transitions [OF h]
  from r have cancel: "items ?cancelled = items (remove_click 0 loaded_page)"
    by simp
  from r have idle: "itemToRemove ?cancelled = None"
    by simp
  from r have i: "items ?confirmed
      = removeItem (items (remove_click 0 loaded_page)) (data_id (createCartItemHTML 0 shirt))"
    by simp
  from r have c: "cartItemsContainer ?confirmed
      = cartItemsContainer (remove_row (node (createCartItemHTML 0 shirt)) (remove_click 0 loaded_page))"
    by simp
  from r have cleared: "itemToRemove ?confirmed = None"
    by simp
  note tail = r [THEN conjunct2, THEN conjunct2, THEN conjunct2, THEN conjunct2, THEN conjunct2,
      THEN conjunct2, THEN conjunct2, THEN conjunct2, THEN conjunct2, THEN conjunct2,
      THEN conjunct2, THEN conjunct2]
  note agg = tail [THEN conjunct1]
  note st = tail [THEN conjunct2, THEN conjunct1]
  have i': "items ?confirmed = [mug]"
    by (simp only: i its rm)
  have "subtotal ?confirmed = Num 250 \<and> cartCountElement ?confirmed = Plain ''1''"
    using agg [rule_format, of "[1]"]
    by (simp add: i' mug_def safe_integer_def IntToString_def digits.simps digit_char_def)
  moreover have "\<exists>v. getCartFromLocalStorage ?confirmed = Parsed v \<and> items_of v = Some [mug]"
    using st s(2) by (simp only: its i')
  ultimately show ?thesis
    using h d s cancel idle c cleared by (simp only: its i' rows simp_thms)
qed

text \<open>
  The claim as stated fails for a pending row whose item is identified by a string:
  after \<open>confirmRemoveItem\<close> the row is gone and the item is still in the cart.
\<close>

theorem confirm_keeps_string_identified_item:
  "itemToRemove (remove_click (Suc 0) loaded_page) = Some (createCartItemHTML (Suc 0) mug) \<and>
   items (confirmRemoveItem (remove_click (Suc 0) loaded_page)) = [shirt, mug] \<and>
   cartItemsContainer (confirmRemoveItem (remove_click (Suc 0) loaded_page)) = Rows [createCartItemHTML 0 shirt] \<and>
   itemToRemove (confirmRemoveItem (remove_click (Suc 0) loaded_page)) = None"
proof -
  have h: "itemToRemove (remove_click (Suc 0) loaded_page) = Some (createCartItemHTML (Suc 0) mug)"
    by (simp add: remove_click_loaded)
  have rm: "removeItem [shirt, mug] (data_id (createCartItemHTML (Suc 0) mug)) = [shirt, mug]"
    by (simp add: removeItem_def createCartItemHTML_def shirt_def mug_def strict_eq_NaN
        parseInt_def is_white_space_def is_radix_digit_def digit_value_def)
  have rows: "cartItemsContainer (remove_row (node (createCartItemHTML (Suc 0) mug)) (remove_click (Suc 0) loaded_page))
      = Rows [createCartItemHTML 0 shirt]"
    by (simp add: remove_row_def remove_click_loaded loaded_page_fields createCartItemHTML_def)
  from confirmRemoveItem_effects [OF h] rm rows show ?thesis
    by (simp add: h remove_click_loaded loaded_page_fields)
qed

end
